theory Spec2Isabelle
  imports Complex_Main
begin

section \<open>Conventions of the embedding\<close>

text \<open>
  The two notebooks compute with IEEE floating-point tensors. The embedding idealises
  a float as a \<^typ>\<open>real\<close> and computes exactly: rounding is not modelled, and an angle
  is any real number (the constant \<open>pi\<close> is the real number, which no float equals). The
  mean of an empty slice, which numpy reports as NaN, is modelled by \<open>None\<close>. The forward
  pass of the network is given a second time with the overflow of float32 to infinity and
  NaN, where a claim depends on it. Python integers are \<^typ>\<open>int\<close>. An exception raised by Python or by one of the
  tensor libraries is a value of type \<open>error\<close>, returned as \<open>Inl\<close>.
\<close>

datatype error = ZeroDivisionError | RuntimeError | ValueError | IndexError

subsection \<open>linspace\<close>

text \<open>
  \<^verbatim>\<open>linspace(start, stop, num)\<close> of numpy and torch: \<open>num\<close> equally spaced values, both
  ends included. One value gives \<open>[start]\<close>. With more than one value numpy stores \<open>stop\<close>
  itself in the last place; over the reals the formula gives that value already.
\<close>

definition linspace :: "real \<Rightarrow> real \<Rightarrow> nat \<Rightarrow> real list" where
  "linspace start stop num =
     (if num = 1 then [start]
      else map (\<lambda>i. start + real i * ((stop - start) / real (num - 1))) [0..<num])"

text \<open>\<^verbatim>\<open>np.linspace\<close> raises ValueError for a negative count.\<close>

definition np_linspace :: "real \<Rightarrow> real \<Rightarrow> int \<Rightarrow> error + real list" where
  "np_linspace start stop num =
     (if num < 0 then Inl ValueError else Inr (linspace start stop (nat num)))"

text \<open>\<^verbatim>\<open>torch.linspace\<close> raises RuntimeError for a negative number of steps.\<close>

definition torch_linspace :: "real \<Rightarrow> real \<Rightarrow> int \<Rightarrow> error + real list" where
  "torch_linspace start stop steps =
     (if steps < 0 then Inl RuntimeError else Inr (linspace start stop (nat steps)))"

subsection \<open>The coordinate grid\<close>

text \<open>
  \<^verbatim>\<open>
  def image_coordinates(size):
      r, c = size
      x, y = torch.linspace(-1, 1, r), torch.linspace(-1, 1, c)
      X, Y = torch.meshgrid(x, y, indexing='ij')
      coords = torch.stack([X.flatten(), Y.flatten()], dim=1)
      return coords
  \<close>
  With \<open>indexing='ij'\<close>, \<open>X[i, j] = x[i]\<close> and \<open>Y[i, j] = y[j]\<close>; flattening is row-major, so
  row \<open>i * c + j\<close> of \<open>coords\<close> is \<open>(x[i], y[j])\<close>.
\<close>

definition meshgrid_ij_flat :: "'a list \<Rightarrow> 'b list \<Rightarrow> ('a \<times> 'b) list" where
  "meshgrid_ij_flat x y = concat (map (\<lambda>xi. map (\<lambda>yj. (xi, yj)) y) x)"

definition image_coordinates :: "int \<times> int \<Rightarrow> error + (real \<times> real) list" where
  "image_coordinates sz =
     (case sz of (r, c) \<Rightarrow>
        (case torch_linspace (-1) 1 r of
           Inl e \<Rightarrow> Inl e
         | Inr x \<Rightarrow>
            (case torch_linspace (-1) 1 c of
               Inl e \<Rightarrow> Inl e
             | Inr y \<Rightarrow> Inr (meshgrid_ij_flat x y))))"

section \<open>The periodic network\<close>

subsection \<open>Random initialisation\<close>

text \<open>
  The generator of random numbers is the stream of draws from \<open>[0, 1)\<close> that are still to
  come; an initialiser takes what it needs from the front and returns the rest.
  \<^verbatim>\<open>Tensor.uniform_(from, to)\<close> refuses \<open>from > to\<close> with a RuntimeError and otherwise
  stores \<open>from + (to - from) * u\<close> in every entry, \<open>u\<close> a fresh draw; it is
  \<open>tensor_uniform\<close> below, for a tensor of \<open>nrows\<close> by \<open>ncols\<close> entries. The library also
  refuses bounds beyond the range of float32; with real bounds that refusal is not
  modelled, so the model may construct where the library refuses, never the reverse.
\<close>

type_synonym rng = "nat \<Rightarrow> real"

definition unit_draws :: "rng \<Rightarrow> bool" where
  "unit_draws g = (\<forall>k. 0 \<le> g k \<and> g k < 1)"

definition tensor_uniform :: "real \<Rightarrow> real \<Rightarrow> nat \<Rightarrow> nat \<Rightarrow> rng \<Rightarrow> error + (real list list \<times> rng)" where
  "tensor_uniform lo hi nrows ncols g =
     (if hi < lo then Inl RuntimeError
      else Inr (map (\<lambda>r. map (\<lambda>c. lo + (hi - lo) * g (r * ncols + c)) [0..<ncols]) [0..<nrows],
                \<lambda>k. g (nrows * ncols + k)))"

subsection \<open>torch.nn.Linear\<close>

text \<open>
  \<^verbatim>\<open>nn.Linear(in_features, out_features, bias)\<close> holds a weight matrix of
  \<open>out_features\<close> rows and \<open>in_features\<close> columns and an optional bias vector. A negative
  dimension is a RuntimeError of the tensor allocation. The default initialisation draws
  the weights and the bias uniformly from \<open>[-1/sqrt(in_features), 1/sqrt(in_features)]\<close>
  (bound \<open>0\<close> for the bias when \<open>in_features = 0\<close>).
\<close>

record nn_linear =
  in_features :: nat
  out_features :: nat
  weight :: "real list list"
  bias :: "real list option"

definition nn_Linear :: "int \<Rightarrow> int \<Rightarrow> bool \<Rightarrow> rng \<Rightarrow> error + (nn_linear \<times> rng)" where
  "nn_Linear ind outd with_bias g =
     (if ind < 0 \<or> outd < 0 then Inl RuntimeError
      else
        (let bound = (if 0 < ind then 1 / sqrt (real_of_int ind) else 0) in
         case tensor_uniform (- bound) bound (nat outd) (nat ind) g of
           Inl e \<Rightarrow> Inl e
         | Inr (w, g1) \<Rightarrow>
            (if with_bias then
               (case tensor_uniform (- bound) bound 1 (nat outd) g1 of
                  Inl e \<Rightarrow> Inl e
                | Inr (b, g2) \<Rightarrow>
                    Inr (\<lparr>in_features = nat ind, out_features = nat outd,
                          weight = w, bias = Some (hd b)\<rparr>, g2))
             else
               Inr (\<lparr>in_features = nat ind, out_features = nat outd,
                     weight = w, bias = None\<rparr>, g1))))"

text \<open>
  The forward pass of \<^verbatim>\<open>nn.Linear\<close> on a batch (a list of rows): every row must have
  \<open>in_features\<close> entries, otherwise the matrix product is a RuntimeError; output unit \<open>o\<close>
  of a row is the dot product of the row with row \<open>o\<close> of the weight matrix, plus the
  bias of unit \<open>o\<close> when there is one.
\<close>

definition dot :: "real list \<Rightarrow> real list \<Rightarrow> real" where
  "dot u v = sum_list (map2 (*) u v)"

fun add_bias :: "real list option \<Rightarrow> real list \<Rightarrow> real list" where
  "add_bias None v = v"
| "add_bias (Some b) v = map2 (+) v b"

definition Linear_forward :: "nn_linear \<Rightarrow> real list list \<Rightarrow> error + real list list" where
  "Linear_forward lin x =
     (if list_all (\<lambda>row. length row = in_features lin) x
      then Inr (map (\<lambda>row. add_bias (bias lin) (map (dot row) (weight lin))) x)
      else Inl RuntimeError)"

subsection \<open>SineLayer\<close>

text \<open>
  \<^verbatim>\<open>
  class SineLayer(nn.Module):
      def __init__(self, indim, outdim, bias=True, is_first=False, omega=30):
          super().__init__()
          self.omega = omega
          self.is_first = is_first
          self.indim = indim
          self.linear = nn.Linear(indim, outdim, bias=bias)
          with torch.no_grad():
              if self.is_first:
                  self.linear.weight.uniform_(-1 / self.indim, 1 / self.indim)
              else:
                  self.linear.weight.uniform_(-np.sqrt(6 / self.indim) / self.omega,
                                               np.sqrt(6 / self.indim) / self.omega)
      def forward(self, input):
          return torch.sin(self.omega * self.linear(input))
  \<close>
  \<open>1 / self.indim\<close> and \<open>6 / self.indim\<close> divide Python numbers: \<open>indim = 0\<close> raises
  ZeroDivisionError. Dividing numpy's square root by \<open>omega = 0\<close> raises nothing and gives
  an infinite bound, which \<open>tensor_uniform\<close> then refuses with a RuntimeError. The second
  notebook writes the same bounds as \<open>w = 1 / indim if is_first else (6 / indim)**0.5 / omega\<close>
  and \<open>uniform_(-w, w)\<close>; there \<open>omega = 0\<close> is a ZeroDivisionError, all else is the same.
\<close>

record sine_layer =
  omega :: real
  is_first :: bool
  indim :: int
  sl_linear :: nn_linear

definition SineLayer_init ::
  "int \<Rightarrow> int \<Rightarrow> bool \<Rightarrow> bool \<Rightarrow> real \<Rightarrow> rng \<Rightarrow> error + (sine_layer \<times> rng)" where
  "SineLayer_init ind outd with_bias first om g =
     (case nn_Linear ind outd with_bias g of
        Inl e \<Rightarrow> Inl e
      | Inr (lin, g1) \<Rightarrow>
         (if first then
            (if ind = 0 then Inl ZeroDivisionError
             else
               (case tensor_uniform (- (1 / real_of_int ind)) (1 / real_of_int ind)
                       (out_features lin) (in_features lin) g1 of
                  Inl e \<Rightarrow> Inl e
                | Inr (w, g2) \<Rightarrow>
                    Inr (\<lparr>omega = om, is_first = first, indim = ind,
                          sl_linear = lin\<lparr>weight := w\<rparr>\<rparr>, g2)))
          else
            (if ind = 0 then Inl ZeroDivisionError
             else if om = 0 then Inl RuntimeError
             else
               (case tensor_uniform (- (sqrt (6 / real_of_int ind) / om)) (sqrt (6 / real_of_int ind) / om)
                       (out_features lin) (in_features lin) g1 of
                  Inl e \<Rightarrow> Inl e
                | Inr (w, g2) \<Rightarrow>
                    Inr (\<lparr>omega = om, is_first = first, indim = ind,
                          sl_linear = lin\<lparr>weight := w\<rparr>\<rparr>, g2)))))"

definition SineLayer_forward :: "sine_layer \<Rightarrow> real list list \<Rightarrow> error + real list list" where
  "SineLayer_forward L x =
     (case Linear_forward (sl_linear L) x of
        Inl e \<Rightarrow> Inl e
      | Inr y \<Rightarrow> Inr (map (map (\<lambda>v. sin (omega L * v))) y))"

text \<open>
  The bound of the initial weights, the \<open>w\<close> of the second notebook:
  \<^verbatim>\<open>w = 1 / indim if is_first else (6 / indim)**0.5 / omega\<close>.
\<close>

definition weight_bound :: "bool \<Rightarrow> int \<Rightarrow> real \<Rightarrow> real" where
  "weight_bound first ind om =
     (if first then 1 / real_of_int ind else sqrt (6 / real_of_int ind) / om)"

text \<open>
  The contract of the layer in the words of the specification,
  \<open>sin(omega * (x @ W\<^sup>T + b))\<close>, with the matrix operations written out: the transpose of
  a matrix with \<open>n\<close> columns, the product of a matrix with a matrix of \<open>m\<close> columns, the
  bias added to every row, and the scaled sine of every entry.
\<close>

definition mat_transpose :: "nat \<Rightarrow> real list list \<Rightarrow> real list list" where
  "mat_transpose n A = map (\<lambda>i. map (\<lambda>row. row ! i) A) [0..<n]"

definition mat_mul :: "nat \<Rightarrow> real list list \<Rightarrow> real list list \<Rightarrow> real list list" where
  "mat_mul m A B =
     map (\<lambda>a. map (\<lambda>j. sum_list (map (\<lambda>k. a ! k * B ! k ! j) [0..<length a])) [0..<m]) A"

definition spec_forward :: "real \<Rightarrow> real list list \<Rightarrow> real list \<Rightarrow> real list list \<Rightarrow> real list list" where
  "spec_forward om W b x =
     map (\<lambda>row. map (\<lambda>v. sin (om * v)) (map2 (+) row b))
       (mat_mul (length W) x (mat_transpose (if x = [] then 0 else length (hd x)) W))"

subsection \<open>Siren\<close>

text \<open>
  \<^verbatim>\<open>
  class Siren(nn.Module):
      def __init__(self, indim=2, outdim=1, nr_hidden=3, hiddendim=256,
                   outermost_linear=True, first_omega=30, hidden_omega=30):
          super().__init__()
          layers = []
          layers.append(SineLayer(indim, hiddendim, is_first=True, omega=first_omega))
          for i in range(nr_hidden):
              layers.append(SineLayer(indim=hiddendim, outdim=hiddendim,
                                        is_first=False, omega=hidden_omega))
          if outermost_linear:
              final_linear = nn.Linear(hiddendim, outdim)
              with torch.no_grad():
                  final_linear.weight.uniform_(-np.sqrt(6 / hiddendim) / hidden_omega,
                                                np.sqrt(6 / hiddendim) / hidden_omega)
              layers.append(final_linear)
          else:
              layers.append(SineLayer(indim=hiddendim, outdim=outdim,
                                        is_first=False, omega=hidden_omega))
          self.net = nn.Sequential(*layers)
      def forward(self, coords):
          coords = coords.clone().detach().requires_grad_(True)
          output = self.net(coords)
          return output
  \<close>
  \<open>range(nr_hidden)\<close> is empty for \<open>nr_hidden \<le> 0\<close>. The second notebook has no
  \<open>outermost_linear\<close> parameter and always takes the first branch.
\<close>

datatype layer = Sine sine_layer | Lin nn_linear

fun hidden_layers :: "nat \<Rightarrow> int \<Rightarrow> real \<Rightarrow> rng \<Rightarrow> error + (layer list \<times> rng)" where
  "hidden_layers 0 hiddendim hidden_omega g = Inr ([], g)"
| "hidden_layers (Suc n) hiddendim hidden_omega g =
     (case SineLayer_init hiddendim hiddendim True False hidden_omega g of
        Inl e \<Rightarrow> Inl e
      | Inr (l, g1) \<Rightarrow>
         (case hidden_layers n hiddendim hidden_omega g1 of
            Inl e \<Rightarrow> Inl e
          | Inr (ls, g2) \<Rightarrow> Inr (Sine l # ls, g2)))"

definition final_layer :: "int \<Rightarrow> int \<Rightarrow> bool \<Rightarrow> real \<Rightarrow> rng \<Rightarrow> error + (layer \<times> rng)" where
  "final_layer hiddendim outdim outermost_linear hidden_omega g =
     (if outermost_linear then
        (case nn_Linear hiddendim outdim True g of
           Inl e \<Rightarrow> Inl e
         | Inr (final_linear, g1) \<Rightarrow>
            (if hiddendim = 0 then Inl ZeroDivisionError
             else if hidden_omega = 0 then Inl RuntimeError
             else
               (case tensor_uniform (- (sqrt (6 / real_of_int hiddendim) / hidden_omega))
                       (sqrt (6 / real_of_int hiddendim) / hidden_omega)
                       (out_features final_linear) (in_features final_linear) g1 of
                  Inl e \<Rightarrow> Inl e
                | Inr (w, g2) \<Rightarrow> Inr (Lin (final_linear\<lparr>weight := w\<rparr>), g2))))
      else
        (case SineLayer_init hiddendim outdim True False hidden_omega g of
           Inl e \<Rightarrow> Inl e
         | Inr (l, g1) \<Rightarrow> Inr (Sine l, g1)))"

definition Siren_init ::
  "int \<Rightarrow> int \<Rightarrow> int \<Rightarrow> int \<Rightarrow> bool \<Rightarrow> real \<Rightarrow> real \<Rightarrow> rng \<Rightarrow> error + (layer list \<times> rng)" where
  "Siren_init ind outdim nr_hidden hiddendim outermost_linear first_omega hidden_omega g =
     (case SineLayer_init ind hiddendim True True first_omega g of
        Inl e \<Rightarrow> Inl e
      | Inr (l0, g1) \<Rightarrow>
         (case hidden_layers (nat nr_hidden) hiddendim hidden_omega g1 of
            Inl e \<Rightarrow> Inl e
          | Inr (hs, g2) \<Rightarrow>
             (case final_layer hiddendim outdim outermost_linear hidden_omega g2 of
                Inl e \<Rightarrow> Inl e
              | Inr (fl, g3) \<Rightarrow> Inr (Sine l0 # hs @ [fl], g3))))"

text \<open>\<^verbatim>\<open>nn.Sequential\<close> feeds the output of each layer to the next one.\<close>

fun layer_forward :: "layer \<Rightarrow> real list list \<Rightarrow> error + real list list" where
  "layer_forward (Sine l) x = SineLayer_forward l x"
| "layer_forward (Lin l) x = Linear_forward l x"

fun Sequential_forward :: "layer list \<Rightarrow> real list list \<Rightarrow> error + real list list" where
  "Sequential_forward [] x = Inr x"
| "Sequential_forward (l # ls) x =
     (case layer_forward l x of Inl e \<Rightarrow> Inl e | Inr y \<Rightarrow> Sequential_forward ls y)"

definition Siren_forward :: "layer list \<Rightarrow> real list list \<Rightarrow> error + real list list" where
  "Siren_forward net coords = Sequential_forward net coords"

subsection \<open>The forward pass in float32\<close>

text \<open>
  The tensors of the network hold float32 values, and the forward pass above computes
  with reals. The forward pass below keeps the two behaviours of IEEE arithmetic that no
  computation with reals has: a result whose magnitude reaches \<open>2^128 - 2^103\<close> (from
  there on it rounds beyond the largest float32, \<open>(2^24 - 1) * 2^104\<close>) is an infinity, and
  an operation that has no value (the sum of opposite infinities, zero times an infinity,
  the sine of an infinity, any operation on NaN) is NaN. The rounding of finite results
  is not modelled. The dot product of \<^verbatim>\<open>nn.Linear\<close> accumulates from left to right,
  the bias is added to it, and \<^verbatim>\<open>torch.sin(self.omega * self.linear(input))\<close>
  multiplies by \<open>omega\<close> before taking the sine.
\<close>

datatype f32 = Fin real | PInf | NInf | NaN

definition overflow :: "real \<Rightarrow> f32" where
  "overflow x =
     (if 2 ^ 128 - 2 ^ 103 \<le> x then PInf
      else if x \<le> - (2 ^ 128 - 2 ^ 103) then NInf
      else Fin x)"

fun f32_add :: "f32 \<Rightarrow> f32 \<Rightarrow> f32" where
  "f32_add (Fin a) (Fin b) = overflow (a + b)"
| "f32_add NaN v = NaN"
| "f32_add v NaN = NaN"
| "f32_add PInf NInf = NaN"
| "f32_add NInf PInf = NaN"
| "f32_add PInf v = PInf"
| "f32_add v PInf = PInf"
| "f32_add NInf v = NInf"
| "f32_add v NInf = NInf"

fun f32_mul :: "f32 \<Rightarrow> f32 \<Rightarrow> f32" where
  "f32_mul (Fin a) (Fin b) = overflow (a * b)"
| "f32_mul NaN v = NaN"
| "f32_mul v NaN = NaN"
| "f32_mul PInf (Fin b) = (if b = 0 then NaN else if 0 < b then PInf else NInf)"
| "f32_mul NInf (Fin b) = (if b = 0 then NaN else if 0 < b then NInf else PInf)"
| "f32_mul (Fin a) PInf = (if a = 0 then NaN else if 0 < a then PInf else NInf)"
| "f32_mul (Fin a) NInf = (if a = 0 then NaN else if 0 < a then NInf else PInf)"
| "f32_mul PInf PInf = PInf"
| "f32_mul PInf NInf = NInf"
| "f32_mul NInf PInf = NInf"
| "f32_mul NInf NInf = PInf"

fun f32_sin :: "f32 \<Rightarrow> f32" where
  "f32_sin (Fin a) = Fin (sin a)"
| "f32_sin v = NaN"

definition dot_f32 :: "f32 list \<Rightarrow> real list \<Rightarrow> f32" where
  "dot_f32 u w = foldl f32_add (Fin 0) (map2 f32_mul u (map Fin w))"

fun add_bias_f32 :: "real list option \<Rightarrow> f32 list \<Rightarrow> f32 list" where
  "add_bias_f32 None v = v"
| "add_bias_f32 (Some b) v = map2 f32_add v (map Fin b)"

definition Linear_forward_f32 :: "nn_linear \<Rightarrow> f32 list list \<Rightarrow> error + f32 list list" where
  "Linear_forward_f32 lin x =
     (if list_all (\<lambda>row. length row = in_features lin) x
      then Inr (map (\<lambda>row. add_bias_f32 (bias lin) (map (dot_f32 row) (weight lin))) x)
      else Inl RuntimeError)"

definition SineLayer_forward_f32 :: "sine_layer \<Rightarrow> f32 list list \<Rightarrow> error + f32 list list" where
  "SineLayer_forward_f32 L x =
     (case Linear_forward_f32 (sl_linear L) x of
        Inl e \<Rightarrow> Inl e
      | Inr y \<Rightarrow> Inr (map (map (\<lambda>v. f32_sin (f32_mul (Fin (omega L)) v))) y))"

fun layer_forward_f32 :: "layer \<Rightarrow> f32 list list \<Rightarrow> error + f32 list list" where
  "layer_forward_f32 (Sine l) x = SineLayer_forward_f32 l x"
| "layer_forward_f32 (Lin l) x = Linear_forward_f32 l x"

fun Sequential_forward_f32 :: "layer list \<Rightarrow> f32 list list \<Rightarrow> error + f32 list list" where
  "Sequential_forward_f32 [] x = Inr x"
| "Sequential_forward_f32 (l # ls) x =
     (case layer_forward_f32 l x of Inl e \<Rightarrow> Inl e | Inr y \<Rightarrow> Sequential_forward_f32 ls y)"

definition Siren_forward_f32 :: "layer list \<Rightarrow> f32 list list \<Rightarrow> error + f32 list list" where
  "Siren_forward_f32 net coords = Sequential_forward_f32 net coords"

text \<open>A float32 value lies in \<open>[-1, 1]\<close> when it is a number of that interval.\<close>

fun in_unit_f32 :: "f32 \<Rightarrow> bool" where
  "in_unit_f32 (Fin a) = (- 1 \<le> a \<and> a \<le> 1)"
| "in_unit_f32 v = False"

definition unit_or_nan :: "f32 \<Rightarrow> bool" where
  "unit_or_nan v = (v = NaN \<or> in_unit_f32 v)"

section \<open>The projection operators\<close>

subsection \<open>Interpolation on a regular grid\<close>

text \<open>
  \<^verbatim>\<open>scipy.interpolate.RegularGridInterpolator((gx, gy), values, bounds_error=False,
  fill_value=0)\<close> with its default linear method. A query point is out of bounds when a
  coordinate is below the first or above the last grid value of its axis; such a point
  gets the fill value. Otherwise the point lies in a cell of the grid, found along each
  axis as the last interval \<open>[g[i], g[i+1]]\<close> (\<open>i \<le> n - 2\<close>) with \<open>g[i] \<le> x\<close>, and the
  value is interpolated linearly along both axes between the four corners of the cell:
  along an axis the grid value \<open>g[i]\<close> has the weight \<open>1 - t\<close> and \<open>g[i+1]\<close> the weight \<open>t\<close>,
  \<open>t\<close> the position of the coordinate in the interval. An axis with a single grid value
  is a special case of the library: that value has the weight \<open>1\<close>.
\<close>

fun find_interval :: "real list \<Rightarrow> real \<Rightarrow> nat" where
  "find_interval (g0 # g1 # g2 # gs) x =
     (if x < g1 then 0 else Suc (find_interval (g1 # g2 # gs) x))"
| "find_interval gs x = 0"

definition out_of_bounds :: "real list \<Rightarrow> real list \<Rightarrow> real \<times> real \<Rightarrow> bool" where
  "out_of_bounds gx gy p =
     (case p of (x, y) \<Rightarrow> x < hd gx \<or> last gx < x \<or> y < hd gy \<or> last gy < y)"

definition axis_weights :: "real list \<Rightarrow> real \<Rightarrow> (nat \<times> real) list" where
  "axis_weights g x =
     (if length g = 1 then [(0, 1)]
      else
        (let i = find_interval g x;
             t = (x - g ! i) / (g ! (i + 1) - g ! i)
         in [(i, 1 - t), (i + 1, t)]))"

definition evaluate_linear :: "real list \<Rightarrow> real list \<Rightarrow> real list list \<Rightarrow> real \<times> real \<Rightarrow> real" where
  "evaluate_linear gx gy values p =
     (case p of (x, y) \<Rightarrow>
        sum_list (map (\<lambda>(i, wx).
                    sum_list (map (\<lambda>(j, wy). wx * wy * values ! i ! j) (axis_weights gy y)))
                  (axis_weights gx x)))"

definition RegularGridInterpolator ::
  "real list \<Rightarrow> real list \<Rightarrow> real list list \<Rightarrow> real \<Rightarrow> real \<times> real \<Rightarrow> real" where
  "RegularGridInterpolator gx gy values fill_value p =
     (if out_of_bounds gx gy p then fill_value else evaluate_linear gx gy values p)"

subsection \<open>Projecting an image\<close>

text \<open>
  \<^verbatim>\<open>
  def project_image(image, thetas, nr_B=128, nr_S=None):
      # docstring:
      #   image: 2D grayscale image to project
      #   thetas: projection angles in radians
      #   nr_B : int, number of detector bins
      #   nr_S : int, number of samples along every projection ray, defaults to nr_B
      #   Returns: nr_B projection values
      nr_S = nr_S or nr_B
      r, c = image.shape
      b, s = np.linspace(-1, 1, nr_B), np.linspace(-1, 1, nr_S)
      B, S = np.meshgrid(b, s, indexing='ij')  # this indexing is used by torch
      cos_a, sin_a = np.cos(thetas), np.sin(thetas)
      X = S[..., None] * cos_a - B[..., None] * sin_a
      Y = S[..., None] * sin_a + B[..., None] * cos_a
      interp = scipy.interpolate.RegularGridInterpolator(
          (np.linspace(-1, 1, r), np.linspace(-1, 1, c)), image,
          bounds_error=False, fill_value=0)
      val = interp((X, Y))
      p = val.mean(axis=0).T  # Projections in rows of sinogram
      return p
  \<close>
  \<open>nr_S or nr_B\<close> is \<open>nr_B\<close> when \<open>nr_S\<close> is \<open>None\<close> or \<open>0\<close>. With \<open>indexing='ij'\<close> the arrays
  \<open>B\<close>, \<open>S\<close>, \<open>X\<close>, \<open>Y\<close> and \<open>val\<close> have the bin index \<open>i\<close> as their axis \<open>0\<close> and the sample
  index \<open>j\<close> as their axis \<open>1\<close>: \<open>B[i, j] = b[i]\<close>, \<open>S[i, j] = s[j]\<close>, and
  \<open>val[i, j, t]\<close> is the interpolated image at \<open>(X[i, j, t], Y[i, j, t])\<close>. So
  \<open>val.mean(axis=0)\<close> averages over \<open>i\<close>, and after the transposition \<open>p[t, j]\<close> is the mean
  of \<open>val[i, j, t]\<close> over all \<open>i\<close>. numpy's mean of no values is NaN, here \<open>None\<close>.

  The image is the list of its rows, all of one length, as the rows of a two-dimensional
  array are. An image with a single row or a single column is accepted: its one grid
  value is \<open>-1\<close>, and every point off that value is out of bounds. An image with no row
  or no column has an empty grid, whose first value the bounds check cannot read: that
  is an IndexError.
\<close>

definition nr_S_default :: "int option \<Rightarrow> int \<Rightarrow> int" where
  "nr_S_default nr_S nr_B = (case nr_S of None \<Rightarrow> nr_B | Some n \<Rightarrow> if n = 0 then nr_B else n)"

definition mean_np :: "real list \<Rightarrow> real option" where
  "mean_np xs = (if xs = [] then None else Some (sum_list xs / real (length xs)))"

definition image_point :: "real \<Rightarrow> real \<Rightarrow> real \<Rightarrow> real \<times> real" where
  "image_point theta b s = (s * cos theta - b * sin theta, s * sin theta + b * cos theta)"

definition image_shape :: "real list list \<Rightarrow> nat \<times> nat" where
  "image_shape img = (length img, case img of [] \<Rightarrow> 0 | row # rows \<Rightarrow> length row)"

definition image_field :: "real list list \<Rightarrow> real \<times> real \<Rightarrow> real" where
  "image_field img =
     (case image_shape img of (r, c) \<Rightarrow>
        RegularGridInterpolator (linspace (-1) 1 r) (linspace (-1) 1 c) img 0)"

definition project_image ::
  "real list list \<Rightarrow> real list \<Rightarrow> int \<Rightarrow> int option \<Rightarrow> error + real option list list" where
  "project_image img thetas nr_B nr_S =
     (case np_linspace (-1) 1 nr_B of
        Inl e \<Rightarrow> Inl e
      | Inr b \<Rightarrow>
         (case np_linspace (-1) 1 (nr_S_default nr_S nr_B) of
            Inl e \<Rightarrow> Inl e
          | Inr s \<Rightarrow>
             (if fst (image_shape img) = 0 \<or> snd (image_shape img) = 0 then Inl IndexError
              else
                Inr (map (\<lambda>theta.
                       map (\<lambda>sj. mean_np (map (\<lambda>bi. image_field img (image_point theta bi sj)) b)) s)
                     thetas))))"

subsection \<open>Projecting a network\<close>

text \<open>
  \<^verbatim>\<open>
  def project_model(model, theta, nr_B, nr_S=64, L_embed=6):
      b = tf.linspace(-1, 1, nr_B)
      s = tf.linspace(-1, 1, nr_S)
      B, S = tf.meshgrid(b, s, indexing='xy')
      pts = tf.stack([B, S], -1)
      pts_flat = tf.reshape(pts, [-1, 2])
      cos_a = np.cos(theta)
      sin_a = np.sin(theta)
      rot = np.array([[sin_a, cos_a], [cos_a, -sin_a]])
      pts_flat = tf.reduce_sum(pts_flat[..., None, :] * rot, -1)  # practically  matmul
      pts_flat = posenc(pts_flat, L_embed=L_embed)
      out = model(pts_flat)
      out = tf.reshape(out, (nr_B, nr_S))
      w = 1/nr_S
      p = w * tf.reduce_sum(out, axis = -1)
      return p
  \<close>
  With \<open>indexing='xy'\<close> the arrays \<open>B\<close> and \<open>S\<close> have \<open>nr_S\<close> rows and \<open>nr_B\<close> columns,
  \<open>B[j, i] = b[i]\<close> and \<open>S[j, i] = s[j]\<close>, so point \<open>j * nr_B + i\<close> of \<open>pts_flat\<close> is
  \<open>(b[i], s[j])\<close>. The broadcast product summed over the last axis multiplies every point
  by \<open>rot\<close>: component \<open>r\<close> of the new point is \<open>rot[r, 0] * b + rot[r, 1] * s\<close>. The
  reshape cuts the flat output into \<open>nr_B\<close> rows of \<open>nr_S\<close> values and fails when the
  number of values is not \<open>nr_B * nr_S\<close>.

  The notebook defines neither \<open>posenc\<close> nor the model it calls; both are parameters
  here, the model as a function from the encoded points to one value per point. A
  negative count is refused by \<open>tf.linspace\<close>, here with a ValueError. With no bins the
  projection is empty. With no samples the reshape is reached with no values and
  \<open>1/nr_S\<close> is a ZeroDivisionError.
\<close>

definition meshgrid_xy_flat :: "'a list \<Rightarrow> 'b list \<Rightarrow> ('a \<times> 'b) list" where
  "meshgrid_xy_flat b s = concat (map (\<lambda>sj. map (\<lambda>bi. (bi, sj)) b) s)"

definition model_point :: "real \<Rightarrow> real \<times> real \<Rightarrow> real \<times> real" where
  "model_point theta p =
     (case p of (b, s) \<Rightarrow>
        (sin theta * b + cos theta * s, cos theta * b + (- sin theta) * s))"

definition reshape2 :: "nat \<Rightarrow> nat \<Rightarrow> 'a list \<Rightarrow> error + 'a list list" where
  "reshape2 nrows ncols xs =
     (if length xs = nrows * ncols
      then Inr (map (\<lambda>i. map (\<lambda>j. xs ! (i * ncols + j)) [0..<ncols]) [0..<nrows])
      else Inl ValueError)"

definition project_model ::
  "('e list \<Rightarrow> real list) \<Rightarrow> ((real \<times> real) list \<Rightarrow> nat \<Rightarrow> 'e list) \<Rightarrow>
     real \<Rightarrow> int \<Rightarrow> int \<Rightarrow> nat \<Rightarrow> error + real list" where
  "project_model model posenc theta nr_B nr_S L_embed =
     (if nr_B < 0 \<or> nr_S < 0 then Inl ValueError
      else
        (let b = linspace (-1) 1 (nat nr_B);
             s = linspace (-1) 1 (nat nr_S);
             pts_flat = map (model_point theta) (meshgrid_xy_flat b s);
             out = model (posenc pts_flat L_embed)
         in case reshape2 (nat nr_B) (nat nr_S) out of
              Inl e \<Rightarrow> Inl e
            | Inr rows \<Rightarrow>
               (if nr_S = 0 then Inl ZeroDivisionError
                else Inr (map (\<lambda>row. (1 / real_of_int nr_S) * sum_list row) rows))))"

subsection \<open>The projection in the words of the specification\<close>

text \<open>
  A point is outside the domain when it is not in \<open>[-1,1]\<times>[-1,1]\<close>.
\<close>

definition outside :: "real \<times> real \<Rightarrow> bool" where
  "outside p = (fst p < - 1 \<or> 1 < fst p \<or> snd p < - 1 \<or> 1 < snd p)"

text \<open>
  The contract of the projection operator as the specification words it: one row per
  angle, one column per detector bin \<open>b\<close>, the entry being the mean of the field over the
  \<open>nr_samples\<close> points \<open>(s * cos \<theta> - b * sin \<theta>, s * sin \<theta> + b * cos \<theta>)\<close> of the ray
  of that bin.
\<close>

definition spec_project ::
  "(real \<times> real \<Rightarrow> real) \<Rightarrow> real list \<Rightarrow> nat \<Rightarrow> nat \<Rightarrow> real option list list" where
  "spec_project field thetas nr_bins nr_samples =
     map (\<lambda>theta.
        map (\<lambda>b. mean_np (map (\<lambda>s. field (s * cos theta - b * sin theta, s * sin theta + b * cos theta))
                            (linspace (-1) 1 nr_samples)))
          (linspace (-1) 1 nr_bins))
      thetas"

section \<open>Concrete inputs\<close>

text \<open>A layer with two inputs and one output, used to run the theorems on.\<close>

definition demo_layer :: sine_layer where
  "demo_layer = \<lparr>omega = 30, is_first = True, indim = 2,
     sl_linear = \<lparr>in_features = 2, out_features = 1, weight = [[1 / 2, - 1 / 2]], bias = Some [0]\<rparr>\<rparr>"


section \<open>Properties of linspace and of the grid\<close>

lemma length_linspace: "length (linspace a b n) = n"
  by (simp add: linspace_def)

lemma linspace_nth:
  "i < n \<Longrightarrow> linspace a b n ! i = (if n = 1 then a else a + real i * ((b - a) / real (n - 1)))"
  by (cases "n = 1") (simp_all add: linspace_def)

lemma linspace_unit_lower: "i < n \<Longrightarrow> - 1 \<le> linspace (-1) 1 n ! i"
  by (simp add: linspace_nth)

lemma linspace_unit_upper:
  assumes "i < n"
  shows "linspace (-1) 1 n ! i \<le> 1"
proof (cases "n = 1")
  case True
  with assms show ?thesis by (simp add: linspace_nth)
next
  case False
  define d where "d = real (n - 1)"
  from False assms have pos: "0 < d" and le: "real i \<le> d" by (auto simp: d_def)
  have "real i * (2 / d) \<le> 2"
    using le pos by (simp add: field_simps)
  then show ?thesis using assms False by (simp add: linspace_nth d_def)
qed

lemma linspace_first: "0 < n \<Longrightarrow> linspace a b n ! 0 = a"
  by (simp add: linspace_nth)

lemma linspace_last: "2 \<le> n \<Longrightarrow> linspace a b n ! (n - 1) = b"
  by (simp add: linspace_nth)

lemma length_meshgrid_ij_flat: "length (meshgrid_ij_flat x y) = length x * length y"
  by (induction x) (simp_all add: meshgrid_ij_flat_def)

lemma meshgrid_ij_flat_nth:
  "i < length x \<Longrightarrow> j < length y \<Longrightarrow> meshgrid_ij_flat x y ! (i * length y + j) = (x ! i, y ! j)"
proof (induction x arbitrary: i)
  case Nil
  then show ?case by simp
next
  case (Cons a x)
  have unfold: "meshgrid_ij_flat (a # x) y = map (\<lambda>yj. (a, yj)) y @ meshgrid_ij_flat x y"
    by (simp add: meshgrid_ij_flat_def)
  show ?case
  proof (cases i)
    case 0
    with Cons.prems show ?thesis by (simp add: unfold nth_append)
  next
    case (Suc k)
    with Cons.prems have k: "k < length x" by simp
    have "meshgrid_ij_flat (a # x) y ! (i * length y + j)
            = meshgrid_ij_flat x y ! (k * length y + j)"
      using Suc by (simp add: unfold nth_append)
    with Cons.IH [OF k Cons.prems(2)] Suc show ?thesis by simp
  qed
qed

lemma set_meshgrid_ij_flat: "set (meshgrid_ij_flat x y) = set x \<times> set y"
  by (auto simp: meshgrid_ij_flat_def)

lemma hd_meshgrid_ij_flat:
  "x \<noteq> [] \<Longrightarrow> y \<noteq> [] \<Longrightarrow> hd (meshgrid_ij_flat x y) = (hd x, hd y)"
  by (cases x; cases y) (simp_all add: meshgrid_ij_flat_def)

lemma last_meshgrid_ij_flat:
  assumes "x \<noteq> []" "y \<noteq> []"
  shows "last (meshgrid_ij_flat x y) = (last x, last y)"
proof -
  from assms have lx: "0 < length x" and ly: "0 < length y" by simp_all
  have len: "length (meshgrid_ij_flat x y) = length x * length y"
    by (rule length_meshgrid_ij_flat)
  have ne: "meshgrid_ij_flat x y \<noteq> []"
    using len lx ly by (metis length_greater_0_conv nat_0_less_mult_iff)
  have idx: "length x * length y - 1 = (length x - 1) * length y + (length y - 1)"
    using lx ly by (cases "length x"; cases "length y") simp_all
  have "last (meshgrid_ij_flat x y) = meshgrid_ij_flat x y ! (length x * length y - 1)"
    using ne len by (simp add: last_conv_nth)
  also have "\<dots> = (x ! (length x - 1), y ! (length y - 1))"
    unfolding idx using lx ly by (intro meshgrid_ij_flat_nth) simp_all
  also have "\<dots> = (last x, last y)"
    using assms by (simp add: last_conv_nth)
  finally show ?thesis .
qed

lemma hd_linspace: "0 < n \<Longrightarrow> hd (linspace a b n) = a"
  using linspace_first [of n a b] length_linspace [of a b n]
  by (metis hd_conv_nth length_greater_0_conv)

lemma last_linspace: "0 < n \<Longrightarrow> last (linspace a b n) = (if n = 1 then a else b)"
proof -
  assume n: "0 < n"
  then have ne: "linspace a b n \<noteq> []"
    using length_linspace [of a b n] by (metis length_greater_0_conv)
  have "last (linspace a b n) = linspace a b n ! (n - 1)"
    using ne by (simp add: last_conv_nth length_linspace)
  also have "\<dots> = (if n = 1 then a else b)"
    using n by (simp add: linspace_nth)
  finally show ?thesis .
qed

lemma linspace_nonempty: "0 < n \<Longrightarrow> linspace a b n \<noteq> []"
  using length_linspace [of a b n] by (metis length_greater_0_conv)

subsection \<open>C5: the coordinate grid\<close>

text \<open>
  C5, as stated, promises that the last point of the grid is \<open>(1, 1)\<close> for all
  \<open>rows \<ge> 1\<close> and \<open>cols \<ge> 1\<close>. A one-step \<open>linspace(-1, 1, 1)\<close> is \<open>[-1]\<close>, so the grid
  of size \<open>(1, 1)\<close> is the single point \<open>(-1, -1)\<close>.
\<close>

theorem image_coordinates_one_by_one:
  "image_coordinates (1, 1) = Inr [(-1, -1)] \<and> last [(-1 :: real, -1 :: real)] \<noteq> (1, 1)"
  by (simp add: image_coordinates_def torch_linspace_def linspace_def meshgrid_ij_flat_def)

text \<open>
  C5 (amended). For \<open>r \<ge> 1\<close> and \<open>c \<ge> 1\<close> the grid is returned, has exactly \<open>r * c\<close>
  points with every component in \<open>[-1, 1]\<close>, is row-major (point \<open>i * c + j\<close> pairs the
  \<open>i\<close>-th value of the first axis with the \<open>j\<close>-th of the second), and starts at
  \<open>(-1, -1)\<close>. Its last point is \<open>(1, 1)\<close> when \<open>r \<ge> 2\<close> and \<open>c \<ge> 2\<close>; an axis with a
  single step contributes \<open>-1\<close> to the last point instead.
\<close>

theorem image_coordinates_grid:
  assumes "1 \<le> r" and "1 \<le> c"
  shows "\<exists>pts. image_coordinates (r, c) = Inr pts
           \<and> length pts = nat (r * c)
           \<and> list_all (\<lambda>(x, y). - 1 \<le> x \<and> x \<le> 1 \<and> - 1 \<le> y \<and> y \<le> 1) pts
           \<and> (\<forall>i j. i < nat r \<longrightarrow> j < nat c \<longrightarrow>
                  pts ! (i * nat c + j) = (linspace (-1) 1 (nat r) ! i, linspace (-1) 1 (nat c) ! j))
           \<and> hd pts = (-1, -1)
           \<and> last pts = (if r = 1 then - 1 else 1, if c = 1 then - 1 else 1)"
proof -
  define x where "x = linspace (-1) 1 (nat r)"
  define y where "y = linspace (-1) 1 (nat c)"
  define pts where "pts = meshgrid_ij_flat x y"
  from assms have r: "0 < nat r" and c: "0 < nat c" by simp_all
  have lx: "length x = nat r" and ly: "length y = nat c"
    by (simp_all add: x_def y_def length_linspace)
  have nex: "x \<noteq> []" and ney: "y \<noteq> []"
    using r c by (simp_all add: x_def y_def linspace_nonempty)
  have ret: "image_coordinates (r, c) = Inr pts"
    using assms by (simp add: image_coordinates_def torch_linspace_def pts_def x_def y_def)
  have len: "length pts = nat (r * c)"
    using assms by (simp add: pts_def length_meshgrid_ij_flat lx ly nat_mult_distrib)
  have inx: "- 1 \<le> u \<and> u \<le> 1" if "u \<in> set x" for u
  proof -
    from that obtain i where "i < nat r" "u = x ! i"
      by (metis in_set_conv_nth lx)
    then show ?thesis
      using linspace_unit_lower [of i "nat r"] linspace_unit_upper [of i "nat r"]
      by (simp add: x_def)
  qed
  have iny: "- 1 \<le> v \<and> v \<le> 1" if "v \<in> set y" for v
  proof -
    from that obtain j where "j < nat c" "v = y ! j"
      by (metis in_set_conv_nth ly)
    then show ?thesis
      using linspace_unit_lower [of j "nat c"] linspace_unit_upper [of j "nat c"]
      by (simp add: y_def)
  qed
  have box: "list_all (\<lambda>(x, y). - 1 \<le> x \<and> x \<le> 1 \<and> - 1 \<le> y \<and> y \<le> 1) pts"
    unfolding list_all_iff pts_def set_meshgrid_ij_flat using inx iny by auto
  have rowmajor: "\<forall>i j. i < nat r \<longrightarrow> j < nat c \<longrightarrow>
      pts ! (i * nat c + j) = (linspace (-1) 1 (nat r) ! i, linspace (-1) 1 (nat c) ! j)"
  proof (intro allI impI)
    fix i j
    assume "i < nat r" and "j < nat c"
    then have "meshgrid_ij_flat x y ! (i * length y + j) = (x ! i, y ! j)"
      by (intro meshgrid_ij_flat_nth) (simp_all add: lx ly)
    then show "pts ! (i * nat c + j) = (linspace (-1) 1 (nat r) ! i, linspace (-1) 1 (nat c) ! j)"
      by (simp add: pts_def x_def y_def length_linspace)
  qed
  have first: "hd pts = (-1, -1)"
    using nex ney r c by (simp add: pts_def hd_meshgrid_ij_flat x_def y_def hd_linspace)
  have "last pts = (last x, last y)"
    using nex ney by (simp add: pts_def last_meshgrid_ij_flat)
  also have "\<dots> = (if r = 1 then - 1 else 1, if c = 1 then - 1 else 1)"
    using r c assms by (auto simp: x_def y_def last_linspace)
  finally have lst: "last pts = (if r = 1 then - 1 else 1, if c = 1 then - 1 else 1)" .
  from ret len box rowmajor first lst show ?thesis by blast
qed

theorem image_coordinates_grid_witness:
  "\<exists>pts. image_coordinates (2, 3) = Inr pts \<and> length pts = 6
      \<and> hd pts = (-1, -1) \<and> last pts = (1, 1) \<and> pts ! 4 = (1, 0)"
proof -
  from image_coordinates_grid [of 2 3] obtain pts where
    ret: "image_coordinates (2, 3) = Inr pts" and len: "length pts = nat (2 * 3)"
    and rm: "\<forall>i j. i < nat 2 \<longrightarrow> j < nat 3 \<longrightarrow>
       pts ! (i * nat 3 + j) = (linspace (-1) 1 (nat 2) ! i, linspace (-1) 1 (nat 3) ! j)"
    and first: "hd pts = (-1, -1)"
    and lst: "last pts = (if (2::int) = 1 then - 1 else 1, if (3::int) = 1 then - 1 else 1)"
    by auto
  have "pts ! (1 * nat 3 + 1) = (linspace (-1) 1 (nat 2) ! 1, linspace (-1) 1 (nat 3) ! 1)"
    using rm [rule_format, of 1 1] by simp
  then have "pts ! 4 = (1, 0)" by (simp add: linspace_nth)
  with ret len first lst show ?thesis by auto
qed

section \<open>Properties of the periodic network\<close>

subsection \<open>Initialisation\<close>

lemma unit_draws_shift: "unit_draws g \<Longrightarrow> unit_draws (\<lambda>k. g (n + k))"
  by (simp add: unit_draws_def)

lemma affine_between:
  fixes lo hi u :: real
  assumes "lo \<le> hi" "0 \<le> u" "u < 1"
  shows "lo \<le> lo + (hi - lo) * u \<and> lo + (hi - lo) * u \<le> hi"
proof
  from assms have "0 \<le> (hi - lo) * u" by simp
  then show "lo \<le> lo + (hi - lo) * u" by simp
  from assms have "(hi - lo) * u \<le> (hi - lo) * 1"
    by (intro mult_left_mono) simp_all
  then show "lo + (hi - lo) * u \<le> hi" by simp
qed

lemma tensor_uniform_Inr:
  assumes "tensor_uniform lo hi r c g = Inr (W, g')"
  shows "lo \<le> hi" and "length W = r" and "list_all (\<lambda>row. length row = c) W"
    and "g' = (\<lambda>k. g (r * c + k))"
    and "unit_draws g \<Longrightarrow> list_all (list_all (\<lambda>w. lo \<le> w \<and> w \<le> hi)) W"
proof -
  from assms show le: "lo \<le> hi" by (auto simp: tensor_uniform_def split: if_splits)
  from assms have W: "W = map (\<lambda>r. map (\<lambda>ca. lo + (hi - lo) * g (r * c + ca)) [0..<c]) [0..<r]"
    and g': "g' = (\<lambda>k. g (r * c + k))"
    by (auto simp: tensor_uniform_def split: if_splits)
  show "length W = r" by (simp add: W)
  show "list_all (\<lambda>row. length row = c) W" by (simp add: W list_all_iff)
  show "g' = (\<lambda>k. g (r * c + k))" by (rule g')
  show "list_all (list_all (\<lambda>w. lo \<le> w \<and> w \<le> hi)) W" if "unit_draws g"
  proof -
    from that have u: "0 \<le> g k \<and> g k < 1" for k by (simp add: unit_draws_def)
    show ?thesis
      unfolding W list_all_iff using affine_between [OF le] u by auto
  qed
qed

lemma tensor_uniform_ok:
  "lo \<le> hi \<Longrightarrow> \<exists>W. tensor_uniform lo hi r c g = Inr (W, \<lambda>k. g (r * c + k))"
  by (simp add: tensor_uniform_def)

lemma tensor_uniform_Inl: "tensor_uniform lo hi r c g = Inl e \<Longrightarrow> hi < lo"
  by (auto simp: tensor_uniform_def split: if_splits)

lemma nn_Linear_Inr:
  assumes "nn_Linear ind outd wb g = Inr (lin, g')"
  shows "0 \<le> ind" and "0 \<le> outd" and "in_features lin = nat ind" and "out_features lin = nat outd"
    and "unit_draws g \<Longrightarrow> unit_draws g'"
  using assms
  by (auto simp: nn_Linear_def Let_def tensor_uniform_def unit_draws_def split: if_splits sum.splits prod.splits)

lemma nn_Linear_ok:
  "0 \<le> ind \<Longrightarrow> 0 \<le> outd \<Longrightarrow> \<exists>lin g'. nn_Linear ind outd wb g = Inr (lin, g')"
  by (auto simp: nn_Linear_def Let_def tensor_uniform_def split: if_splits sum.splits prod.splits)

lemma nn_Linear_Inl: "nn_Linear ind outd wb g = Inl e \<Longrightarrow> ind < 0 \<or> outd < 0"
  using nn_Linear_ok [of ind outd wb g] by (cases "ind < 0 \<or> outd < 0") auto

lemma SineLayer_init_unfold:
  "SineLayer_init ind outd wb first om g =
     (case nn_Linear ind outd wb g of
        Inl e \<Rightarrow> Inl e
      | Inr (lin, g1) \<Rightarrow>
          (if ind = 0 then Inl ZeroDivisionError
           else if \<not> first \<and> om = 0 then Inl RuntimeError
           else
             (case tensor_uniform (- weight_bound first ind om) (weight_bound first ind om)
                     (out_features lin) (in_features lin) g1 of
                Inl e \<Rightarrow> Inl e
              | Inr (w, g2) \<Rightarrow>
                  Inr (\<lparr>omega = om, is_first = first, indim = ind,
                        sl_linear = lin\<lparr>weight := w\<rparr>\<rparr>, g2))))"
  by (simp add: SineLayer_init_def weight_bound_def split: sum.splits prod.splits)

lemma weight_bound_nonneg_iff:
  "0 < ind \<Longrightarrow> \<not> first \<longrightarrow> om \<noteq> 0 \<Longrightarrow>
     (- weight_bound first ind om \<le> weight_bound first ind om) = (first \<or> 0 < om)"
proof -
  assume ind: "0 < ind" and om: "\<not> first \<longrightarrow> om \<noteq> 0"
  have s: "0 < sqrt (6 / real_of_int ind)" using ind by simp
  show ?thesis
  proof (cases first)
    case True
    with ind show ?thesis by (simp add: weight_bound_def)
  next
    case False
    with om have "om \<noteq> 0" by simp
    then consider "0 < om" | "om < 0" by linarith
    then show ?thesis
    proof cases
      case 1
      with s have "0 < sqrt (6 / real_of_int ind) / om" by simp
      with False 1 show ?thesis by (simp add: weight_bound_def)
    next
      case 2
      with s have "sqrt (6 / real_of_int ind) / om < 0" by (simp add: divide_pos_neg)
      with False 2 show ?thesis by (simp add: weight_bound_def)
    qed
  qed
qed

lemma SineLayer_init_Inr:
  assumes "SineLayer_init ind outd wb first om g = Inr (L, g')"
  shows "0 < ind" and "0 \<le> outd" and "first \<or> 0 < om"
    and "omega L = om" and "is_first L = first" and "indim L = ind"
    and "in_features (sl_linear L) = nat ind" and "out_features (sl_linear L) = nat outd"
    and "length (weight (sl_linear L)) = nat outd"
    and "list_all (\<lambda>row. length row = nat ind) (weight (sl_linear L))"
    and "unit_draws g \<Longrightarrow> unit_draws g'"
    and "unit_draws g \<Longrightarrow>
          list_all (list_all (\<lambda>w. - weight_bound first ind om \<le> w \<and> w \<le> weight_bound first ind om))
            (weight (sl_linear L))"
proof -
  from assms obtain lin g1 where lin: "nn_Linear ind outd wb g = Inr (lin, g1)"
    by (auto simp: SineLayer_init_unfold split: sum.splits)
  note lf = nn_Linear_Inr [OF lin]
  from assms lin have nz: "ind \<noteq> 0" and om: "\<not> first \<longrightarrow> om \<noteq> 0"
    by (auto simp: SineLayer_init_unfold split: if_splits)
  from assms lin nz om obtain w where
    w: "tensor_uniform (- weight_bound first ind om) (weight_bound first ind om)
          (out_features lin) (in_features lin) g1 = Inr (w, g')"
    and L: "L = \<lparr>omega = om, is_first = first, indim = ind, sl_linear = lin\<lparr>weight := w\<rparr>\<rparr>"
    by (auto simp: SineLayer_init_unfold split: sum.splits if_splits)
  note wf = tensor_uniform_Inr [OF w]
  from nz lf(1) show ind: "0 < ind" by simp
  show "0 \<le> outd" by (rule lf(2))
  from wf(1) weight_bound_nonneg_iff [OF ind om] show "first \<or> 0 < om" by simp
  show "omega L = om" "is_first L = first" "indim L = ind" by (simp_all add: L)
  show "in_features (sl_linear L) = nat ind" "out_features (sl_linear L) = nat outd"
    by (simp_all add: L lf)
  show "length (weight (sl_linear L)) = nat outd" using wf(2) by (simp add: L lf)
  show "list_all (\<lambda>row. length row = nat ind) (weight (sl_linear L))"
    using wf(3) by (simp add: L lf)
  show "unit_draws g'" if "unit_draws g"
    using lf(5) [OF that] wf(4) by (simp add: unit_draws_def)
  show "list_all (list_all (\<lambda>w. - weight_bound first ind om \<le> w \<and> w \<le> weight_bound first ind om))
            (weight (sl_linear L))" if "unit_draws g"
    using wf(5) [OF lf(5) [OF that]] by (simp add: L)
qed

lemma SineLayer_init_ok:
  assumes "0 < ind" and "0 \<le> outd" and "first \<or> 0 < om"
  shows "\<exists>L g'. SineLayer_init ind outd wb first om g = Inr (L, g')"
proof -
  from assms obtain lin g1 where lin: "nn_Linear ind outd wb g = Inr (lin, g1)"
    using nn_Linear_ok [of ind outd wb g] by auto
  from assms have om: "\<not> first \<longrightarrow> om \<noteq> 0" by auto
  have "- weight_bound first ind om \<le> weight_bound first ind om"
    using weight_bound_nonneg_iff [OF assms(1) om] assms(3) by simp
  from tensor_uniform_ok [OF this] obtain w g2 where
    "tensor_uniform (- weight_bound first ind om) (weight_bound first ind om)
          (out_features lin) (in_features lin) g1 = Inr (w, g2)" by blast
  with lin assms(1) om show ?thesis
    by (auto simp: SineLayer_init_unfold)
qed

subsection \<open>C3: the bounds of the initial weights\<close>

text \<open>
  C3. For valid parameters (\<open>indim > 0\<close>, \<open>outdim \<ge> 0\<close>, and \<open>omega > 0\<close> unless the layer is
  the first one) and every stream of draws from \<open>[0, 1)\<close>, the construction of a SineLayer
  succeeds, the weight matrix has \<open>outdim\<close> rows of \<open>indim\<close> entries, and every entry lies
  in \<open>[-1/indim, 1/indim]\<close> if \<open>is_first\<close> and in
  \<open>[-sqrt(6/indim)/omega, sqrt(6/indim)/omega]\<close> otherwise. Nothing is said of the bias.
\<close>

theorem SineLayer_init_weight_bounds:
  assumes "unit_draws g" and "0 < ind" and "0 \<le> outd" and "first \<or> 0 < om"
  shows "\<exists>L g'. SineLayer_init ind outd wb first om g = Inr (L, g')
           \<and> length (weight (sl_linear L)) = nat outd
           \<and> list_all (\<lambda>row. length row = nat ind) (weight (sl_linear L))
           \<and> list_all (list_all (\<lambda>w.
                 if first then - (1 / real_of_int ind) \<le> w \<and> w \<le> 1 / real_of_int ind
                 else - (sqrt (6 / real_of_int ind) / om) \<le> w \<and> w \<le> sqrt (6 / real_of_int ind) / om))
               (weight (sl_linear L))"
proof -
  from SineLayer_init_ok [OF assms(2-4)] obtain L g' where
    ok: "SineLayer_init ind outd wb first om g = Inr (L, g')" by blast
  note f = SineLayer_init_Inr [OF ok]
  have "list_all (list_all (\<lambda>w.
                 if first then - (1 / real_of_int ind) \<le> w \<and> w \<le> 1 / real_of_int ind
                 else - (sqrt (6 / real_of_int ind) / om) \<le> w \<and> w \<le> sqrt (6 / real_of_int ind) / om))
               (weight (sl_linear L))"
    using f(12) [OF assms(1)] by (cases first) (simp_all add: weight_bound_def)
  with ok f(9) f(10) show ?thesis by blast
qed

theorem SineLayer_init_weight_bounds_witness:
  "unit_draws (\<lambda>k. 1 / 2) \<and> (0::int) < 2 \<and> (0::int) \<le> 1 \<and> (False \<or> (0::real) < 30) \<and>
   (\<exists>L g'. SineLayer_init 2 1 True False 30 (\<lambda>k. 1 / 2) = Inr (L, g')
      \<and> length (weight (sl_linear L)) = 1
      \<and> list_all (list_all (\<lambda>w. - (sqrt 3 / 30) \<le> w \<and> w \<le> sqrt 3 / 30)) (weight (sl_linear L)))"
proof -
  have u: "unit_draws (\<lambda>k. 1 / 2)" by (simp add: unit_draws_def)
  from SineLayer_init_weight_bounds [OF u, of 2 1 False 30 True]
  show ?thesis using u by auto
qed

lemma dot_sum_nth:
  assumes "length u = length v"
  shows "dot u v = sum_list (map (\<lambda>k. u ! k * v ! k) [0..<length u])"
proof -
  have "map2 (*) u v = map (\<lambda>k. u ! k * v ! k) [0..<length u]"
    using assms by (intro nth_equalityI) simp_all
  then show ?thesis by (simp add: dot_def)
qed

lemma mat_transpose_nth:
  "k < n \<Longrightarrow> j < length W \<Longrightarrow> mat_transpose n W ! k ! j = W ! j ! k"
  by (simp add: mat_transpose_def)

lemma spec_row:
  assumes row: "length row = n" and W: "list_all (\<lambda>w. length w = n) W"
  shows "map (\<lambda>j. sum_list (map (\<lambda>k. row ! k * mat_transpose n W ! k ! j) [0..<length row])) [0..<length W]
           = map (dot row) W"
proof (intro nth_equalityI)
  show "length (map (\<lambda>j. sum_list (map (\<lambda>k. row ! k * mat_transpose n W ! k ! j) [0..<length row])) [0..<length W])
          = length (map (dot row) W)" by simp
next
  fix j
  assume "j < length (map (\<lambda>j. sum_list (map (\<lambda>k. row ! k * mat_transpose n W ! k ! j) [0..<length row])) [0..<length W])"
  then have j: "j < length W" by simp
  with W have lw: "length (W ! j) = n" by (simp add: list_all_length)
  have eq: "map (\<lambda>k. row ! k * mat_transpose n W ! k ! j) [0..<length row]
          = map (\<lambda>k. row ! k * W ! j ! k) [0..<length row]"
    using j row by (intro map_cong) (simp_all add: mat_transpose_nth)
  have "dot row (W ! j) = sum_list (map (\<lambda>k. row ! k * W ! j ! k) [0..<length row])"
    using row lw by (intro dot_sum_nth) simp
  moreover have "sum_list (map (\<lambda>k. row ! k * mat_transpose n W ! k ! j) [0..<length row])
          = sum_list (map (\<lambda>k. row ! k * W ! j ! k) [0..<length row])"
    using eq by (rule arg_cong)
  ultimately have "sum_list (map (\<lambda>k. row ! k * mat_transpose n W ! k ! j) [0..<length row])
          = dot row (W ! j)" by (simp only:)
  then show "map (\<lambda>j. sum_list (map (\<lambda>k. row ! k * mat_transpose n W ! k ! j) [0..<length row])) [0..<length W] ! j
          = map (dot row) W ! j"
    using j by simp
qed

subsection \<open>C7: the forward pass of a SineLayer\<close>

text \<open>
  C7. For every SineLayer with weight matrix \<open>W\<close>, bias \<open>b\<close> and frequency \<open>omega\<close>, and
  every input batch \<open>x\<close> whose rows have as many entries as the rows of \<open>W\<close>,
  \<open>forward(x)\<close> is \<open>sin(omega * (x @ W\<^sup>T + b))\<close>, entry by entry.
\<close>

theorem SineLayer_forward_spec:
  assumes x: "list_all (\<lambda>row. length row = in_features (sl_linear L)) x"
    and W: "list_all (\<lambda>w. length w = in_features (sl_linear L)) (weight (sl_linear L))"
    and b: "bias (sl_linear L) = Some b"
  shows "SineLayer_forward L x = Inr (spec_forward (omega L) (weight (sl_linear L)) b x)"
proof -
  define n where "n = in_features (sl_linear L)"
  define Wm where "Wm = weight (sl_linear L)"
  have inner: "(if x = [] then 0 else length (hd x)) = n" if "x \<noteq> []"
    using that x by (cases x) (simp_all add: n_def)
  have rows: "map (\<lambda>j. sum_list (map (\<lambda>k. row ! k * mat_transpose n Wm ! k ! j) [0..<length row])) [0..<length Wm]
                = map (dot row) Wm" if "row \<in> set x" for row
  proof -
    from that x have "length row = n" by (simp add: list_all_iff n_def)
    then show ?thesis using W by (intro spec_row) (simp_all add: n_def Wm_def)
  qed
  have "spec_forward (omega L) Wm b x
          = map (\<lambda>row. map (\<lambda>v. sin (omega L * v)) (map2 (+) (map (dot row) Wm) b)) x"
  proof (cases "x = []")
    case True
    then show ?thesis by (simp add: spec_forward_def mat_mul_def)
  next
    case False
    show ?thesis
      unfolding spec_forward_def mat_mul_def inner [OF False] map_map comp_def
      using rows by (intro map_cong) simp_all
  qed
  moreover have "SineLayer_forward L x
          = Inr (map (\<lambda>row. map (\<lambda>v. sin (omega L * v)) (map2 (+) (map (dot row) Wm) b)) x)"
    using x b by (simp add: SineLayer_forward_def Linear_forward_def Wm_def comp_def)
  ultimately show ?thesis by (simp add: Wm_def)
qed

subsection \<open>C10: the output of a SineLayer in float32\<close>

lemma f32_sin_unit_or_nan: "unit_or_nan (f32_sin v)"
  by (cases v) (simp_all add: unit_or_nan_def)

lemma SineLayer_forward_f32_unit_or_nan:
  "SineLayer_forward_f32 L x = Inr y \<Longrightarrow> list_all (list_all unit_or_nan) y"
  by (auto simp: SineLayer_forward_f32_def list_all_iff f32_sin_unit_or_nan split: sum.splits)

lemma Sequential_forward_f32_append:
  "Sequential_forward_f32 (as @ bs) x =
     (case Sequential_forward_f32 as x of Inl e \<Rightarrow> Inl e | Inr y \<Rightarrow> Sequential_forward_f32 bs y)"
  by (induction as arbitrary: x) (simp_all split: sum.splits)

text \<open>
  Where the float32 forward pass returns numbers only, they are the numbers of the
  forward pass over the reals: an infinity or a NaN, once it has appeared, stays to the
  end of the layer.
\<close>

lemma f32_add_Fin: "f32_add u v = Fin c \<Longrightarrow> \<exists>a b. u = Fin a \<and> v = Fin b \<and> c = a + b"
  by (cases u; cases v) (simp_all add: overflow_def split: if_splits)

lemma f32_mul_Fin: "f32_mul u v = Fin c \<Longrightarrow> \<exists>a b. u = Fin a \<and> v = Fin b \<and> c = a * b"
  by (cases u; cases v) (simp_all add: overflow_def split: if_splits)

lemma foldl_f32_add_Fin:
  "foldl f32_add acc ps = Fin c \<Longrightarrow>
     \<exists>a qs. acc = Fin a \<and> ps = map Fin qs \<and> c = a + sum_list qs"
proof (induction ps arbitrary: acc)
  case Nil
  then show ?case by simp
next
  case (Cons p ps)
  from Cons.prems have "foldl f32_add (f32_add acc p) ps = Fin c" by simp
  from Cons.IH [OF this] obtain a' qs where
    step: "f32_add acc p = Fin a'" and ps: "ps = map Fin qs" and c: "c = a' + sum_list qs"
    by blast
  from f32_add_Fin [OF step] obtain a b where "acc = Fin a" "p = Fin b" "a' = a + b" by blast
  with ps c have "acc = Fin a \<and> p # ps = map Fin (b # qs) \<and> c = a + sum_list (b # qs)"
    by simp
  then show ?case by (intro exI [of _ a] exI [of _ "b # qs"])
qed

lemma dot_f32_Fin:
  assumes "dot_f32 (map Fin u) w = Fin c"
  shows "c = dot u w"
proof -
  from assms obtain a qs where a: "Fin 0 = Fin a"
    and qs: "map2 f32_mul (map Fin u) (map Fin w) = map Fin qs" and c: "c = a + sum_list qs"
    unfolding dot_f32_def using foldl_f32_add_Fin by blast
  have len: "length qs = length (zip u w)"
    using arg_cong [OF qs, of length] by simp
  have "qs = map2 (*) u w"
  proof (intro nth_equalityI)
    show "length qs = length (map2 (*) u w)" using len by simp
  next
    fix i assume i: "i < length qs"
    with len have iu: "i < length u" and iw: "i < length w" by simp_all
    from qs have "map2 f32_mul (map Fin u) (map Fin w) ! i = map Fin qs ! i" by simp
    with i iu iw have "f32_mul (Fin (u ! i)) (Fin (w ! i)) = Fin (qs ! i)" by simp
    from f32_mul_Fin [OF this] have "qs ! i = u ! i * w ! i" by auto
    with iu iw show "qs ! i = map2 (*) u w ! i" by simp
  qed
  with a c show ?thesis by (simp add: dot_def)
qed

lemma f32_sin_mul_Fin:
  "f32_sin (f32_mul (Fin om) v) = Fin c \<Longrightarrow> \<exists>a. v = Fin a \<and> c = sin (om * a)"
  by (cases v) (auto simp: overflow_def split: if_splits)

lemma SineLayer_row_f32_Fin:
  assumes "map (\<lambda>v. f32_sin (f32_mul (Fin om) v)) (add_bias_f32 bs (map (dot_f32 (map Fin r)) W))
             = map Fin yrow"
  shows "map (\<lambda>v. sin (om * v)) (add_bias bs (map (dot r) W)) = yrow"
proof (cases bs)
  case None
  have len: "length yrow = length W"
    using map_eq_imp_length_eq [OF assms] by (simp add: None)
  show ?thesis
  proof (intro nth_equalityI)
    show "length (map (\<lambda>v. sin (om * v)) (add_bias bs (map (dot r) W))) = length yrow"
      using len by (simp add: None)
  next
    fix i assume "i < length (map (\<lambda>v. sin (om * v)) (add_bias bs (map (dot r) W)))"
    then have i: "i < length W" by (simp add: None)
    from assms have "map (\<lambda>v. f32_sin (f32_mul (Fin om) v)) (map (dot_f32 (map Fin r)) W) ! i
        = map Fin yrow ! i" by (simp add: None)
    with i len have "f32_sin (f32_mul (Fin om) (dot_f32 (map Fin r) (W ! i))) = Fin (yrow ! i)"
      by simp
    from f32_sin_mul_Fin [OF this] obtain a where
      a: "dot_f32 (map Fin r) (W ! i) = Fin a" and y: "yrow ! i = sin (om * a)" by blast
    from dot_f32_Fin [OF a] y i
    show "map (\<lambda>v. sin (om * v)) (add_bias bs (map (dot r) W)) ! i = yrow ! i"
      by (simp add: None)
  qed
next
  case (Some b)
  have len: "length yrow = min (length W) (length b)"
    using map_eq_imp_length_eq [OF assms] by (simp add: Some)
  show ?thesis
  proof (intro nth_equalityI)
    show "length (map (\<lambda>v. sin (om * v)) (add_bias bs (map (dot r) W))) = length yrow"
      using len by (simp add: Some)
  next
    fix i assume "i < length (map (\<lambda>v. sin (om * v)) (add_bias bs (map (dot r) W)))"
    then have i: "i < length W" "i < length b" by (simp_all add: Some)
    from assms have "map (\<lambda>v. f32_sin (f32_mul (Fin om) v))
          (map2 f32_add (map (dot_f32 (map Fin r)) W) (map Fin b)) ! i = map Fin yrow ! i"
      by (simp add: Some)
    with i len have
      "f32_sin (f32_mul (Fin om) (f32_add (dot_f32 (map Fin r) (W ! i)) (Fin (b ! i)))) = Fin (yrow ! i)"
      by simp
    from f32_sin_mul_Fin [OF this] obtain a where
      a: "f32_add (dot_f32 (map Fin r) (W ! i)) (Fin (b ! i)) = Fin a"
      and y: "yrow ! i = sin (om * a)" by blast
    from f32_add_Fin [OF a] obtain a' where
      a': "dot_f32 (map Fin r) (W ! i) = Fin a'" and sum: "a = a' + b ! i" by auto
    from dot_f32_Fin [OF a'] y sum i
    show "map (\<lambda>v. sin (om * v)) (add_bias bs (map (dot r) W)) ! i = yrow ! i"
      by (simp add: Some)
  qed
qed

lemma SineLayer_forward_f32_Fin:
  assumes "SineLayer_forward_f32 L (map (map Fin) x) = Inr (map (map Fin) y)"
  shows "SineLayer_forward L x = Inr y"
proof -
  from assms have shape: "list_all (\<lambda>row. length row = in_features (sl_linear L)) x"
    by (auto simp: SineLayer_forward_f32_def Linear_forward_f32_def list_all_iff
        split: sum.splits if_splits)
  with assms have rows:
    "map (\<lambda>r. map (\<lambda>v. f32_sin (f32_mul (Fin (omega L)) v))
            (add_bias_f32 (bias (sl_linear L)) (map (dot_f32 (map Fin r)) (weight (sl_linear L))))) x
       = map (map Fin) y"
    by (simp add: SineLayer_forward_f32_def Linear_forward_f32_def list_all_iff comp_def)
  have "map (\<lambda>r. map (\<lambda>v. sin (omega L * v))
            (add_bias (bias (sl_linear L)) (map (dot r) (weight (sl_linear L))))) x = y"
  proof (rule nth_equalityI)
    show "length (map (\<lambda>r. map (\<lambda>v. sin (omega L * v))
            (add_bias (bias (sl_linear L)) (map (dot r) (weight (sl_linear L))))) x) = length y"
      using map_eq_imp_length_eq [OF rows] by simp
  next
    fix i assume "i < length (map (\<lambda>r. map (\<lambda>v. sin (omega L * v))
            (add_bias (bias (sl_linear L)) (map (dot r) (weight (sl_linear L))))) x)"
    then have i: "i < length x" by simp
    moreover have "length y = length x" using map_eq_imp_length_eq [OF rows] by simp
    moreover from rows have "map (\<lambda>r. map (\<lambda>v. f32_sin (f32_mul (Fin (omega L)) v))
            (add_bias_f32 (bias (sl_linear L)) (map (dot_f32 (map Fin r)) (weight (sl_linear L))))) x ! i
       = map (map Fin) y ! i" by simp
    ultimately have "map (\<lambda>v. f32_sin (f32_mul (Fin (omega L)) v))
            (add_bias_f32 (bias (sl_linear L)) (map (dot_f32 (map Fin (x ! i))) (weight (sl_linear L))))
       = map Fin (y ! i)" by simp
    from SineLayer_row_f32_Fin [OF this] i
    show "map (\<lambda>r. map (\<lambda>v. sin (omega L * v))
            (add_bias (bias (sl_linear L)) (map (dot r) (weight (sl_linear L))))) x ! i = y ! i"
      by simp
  qed
  with shape show ?thesis
    by (simp add: SineLayer_forward_def Linear_forward_def comp_def)
qed

text \<open>
  C10, as stated, has every entry of the output in \<open>[-1, 1]\<close> for every input and all
  parameter values. In float32 the product \<open>omega * linear(input)\<close> overflows at finite
  inputs: for the layer with the weights \<open>1/2, -1/2\<close>, the bias \<open>0\<close> and \<open>omega = 30\<close>, the
  input \<open>(3 * 10^38, -3 * 10^38)\<close> has the linear output \<open>3 * 10^38\<close>, thirty times that is
  an infinity, and the sine of an infinity is NaN, which is in no interval.
\<close>

theorem SineLayer_forward_overflow:
  "SineLayer_forward_f32 demo_layer [[Fin (3 * 10 ^ 38), Fin (- (3 * 10 ^ 38))]] = Inr [[NaN]]
   \<and> \<not> in_unit_f32 NaN"
  by (simp add: SineLayer_forward_f32_def Linear_forward_f32_def dot_f32_def demo_layer_def
      overflow_def)

text \<open>
  C10 (amended). Whatever the parameters and the input, every entry of the output of a
  SineLayer is a number in \<open>[-1, 1]\<close> or NaN, never another number and never an
  infinity; hence in a network the activation after any periodic layer (the output of the
  network cut after that layer) consists of numbers in \<open>[-1, 1]\<close> and NaN as well.
\<close>

theorem SineLayer_output_bounded:
  "(SineLayer_forward_f32 L x = Inr y \<longrightarrow> list_all (list_all unit_or_nan) y) \<and>
   (k < length net \<longrightarrow> net ! k = Sine L \<longrightarrow>
      Siren_forward_f32 (take (Suc k) net) coords = Inr act \<longrightarrow> list_all (list_all unit_or_nan) act)"
proof (intro conjI impI)
  assume "SineLayer_forward_f32 L x = Inr y"
  then show "list_all (list_all unit_or_nan) y" by (rule SineLayer_forward_f32_unit_or_nan)
next
  assume k: "k < length net" and L: "net ! k = Sine L"
    and run: "Siren_forward_f32 (take (Suc k) net) coords = Inr act"
  from k L have "take (Suc k) net = take k net @ [Sine L]"
    by (simp add: take_Suc_conv_app_nth)
  with run obtain z where "SineLayer_forward_f32 L z = Inr act"
    by (auto simp: Siren_forward_f32_def Sequential_forward_f32_append split: sum.splits)
  then show "list_all (list_all unit_or_nan) act" by (rule SineLayer_forward_f32_unit_or_nan)
qed

subsection \<open>Construction of the network\<close>

lemma hidden_layers_Inr:
  assumes "hidden_layers n hdim om g = Inr (ls, g')"
  shows "length ls = n
       \<and> (\<forall>k<n. \<exists>L. ls ! k = Sine L \<and> \<not> is_first L \<and> omega L = om \<and> indim L = hdim
               \<and> length (weight (sl_linear L)) = nat hdim)
       \<and> (unit_draws g \<longrightarrow> unit_draws g')
       \<and> (0 < n \<longrightarrow> 0 < hdim \<and> 0 < om)"
  using assms
proof (induction n arbitrary: g ls)
  case 0
  then show ?case by simp
next
  case (Suc n)
  from Suc.prems obtain l g1 where l: "SineLayer_init hdim hdim True False om g = Inr (l, g1)"
    by (auto split: sum.splits)
  with Suc.prems obtain ls' where rest: "hidden_layers n hdim om g1 = Inr (ls', g')"
    and ls: "ls = Sine l # ls'"
    by (auto split: sum.splits)
  note f = SineLayer_init_Inr [OF l]
  note ih = Suc.IH [OF rest]
  have nth: "\<exists>L. ls ! k = Sine L \<and> \<not> is_first L \<and> omega L = om \<and> indim L = hdim
               \<and> length (weight (sl_linear L)) = nat hdim" if "k < Suc n" for k
  proof (cases k)
    case 0
    then show ?thesis using f by (simp add: ls)
  next
    case (Suc j)
    with that ih show ?thesis by (simp add: ls)
  qed
  from ih f nth show ?case by (auto simp: ls)
qed

lemma hidden_layers_ok:
  assumes "0 < hdim" and "0 < om"
  shows "\<exists>ls g'. hidden_layers n hdim om g = Inr (ls, g')"
proof (induction n arbitrary: g)
  case 0
  then show ?case by simp
next
  case (Suc n)
  from assms obtain l g1 where l: "SineLayer_init hdim hdim True False om g = Inr (l, g1)"
    using SineLayer_init_ok [of hdim hdim False om True g] by auto
  from Suc [of g1] obtain ls g' where "hidden_layers n hdim om g1 = Inr (ls, g')" by blast
  with l show ?case by simp
qed

lemma final_layer_unfold:
  "final_layer hdim outd True om g =
      (case nn_Linear hdim outd True g of
           Inl e \<Rightarrow> Inl e
         | Inr (final_linear, g1) \<Rightarrow>
            (if hdim = 0 then Inl ZeroDivisionError
             else if om = 0 then Inl RuntimeError
             else
               (case tensor_uniform (- weight_bound False hdim om) (weight_bound False hdim om)
                       (out_features final_linear) (in_features final_linear) g1 of
                  Inl e \<Rightarrow> Inl e
                | Inr (w, g2) \<Rightarrow> Inr (Lin (final_linear\<lparr>weight := w\<rparr>), g2))))"
  by (simp add: final_layer_def weight_bound_def split: sum.splits prod.splits)

lemma final_layer_Inr:
  assumes "final_layer hdim outd ol om g = Inr (fl, g')"
  shows "0 < hdim" and "0 \<le> outd" and "0 < om"
    and "ol \<Longrightarrow> unit_draws g \<Longrightarrow> \<exists>lin. fl = Lin lin \<and> length (weight lin) = nat outd
            \<and> list_all (\<lambda>row. length row = nat hdim) (weight lin)
            \<and> list_all (list_all (\<lambda>w. - weight_bound False hdim om \<le> w \<and> w \<le> weight_bound False hdim om))
                 (weight lin)"
    and "\<not> ol \<Longrightarrow> \<exists>L. fl = Sine L \<and> \<not> is_first L \<and> omega L = om \<and> indim L = hdim
            \<and> length (weight (sl_linear L)) = nat outd"
proof -
  have all: "0 < hdim \<and> 0 \<le> outd \<and> 0 < om
    \<and> (ol \<longrightarrow> unit_draws g \<longrightarrow> (\<exists>lin. fl = Lin lin \<and> length (weight lin) = nat outd
            \<and> list_all (\<lambda>row. length row = nat hdim) (weight lin)
            \<and> list_all (list_all (\<lambda>w. - weight_bound False hdim om \<le> w \<and> w \<le> weight_bound False hdim om))
                 (weight lin)))
    \<and> (\<not> ol \<longrightarrow> (\<exists>L. fl = Sine L \<and> \<not> is_first L \<and> omega L = om \<and> indim L = hdim
            \<and> length (weight (sl_linear L)) = nat outd))"
  proof (cases ol)
    case True
    with assms have run: "final_layer hdim outd True om g = Inr (fl, g')" by simp
    then obtain lin g1 where lin: "nn_Linear hdim outd True g = Inr (lin, g1)"
      by (auto simp: final_layer_unfold split: sum.splits)
    note lf = nn_Linear_Inr [OF lin]
    from run lin have nz: "hdim \<noteq> 0" and om: "om \<noteq> 0"
      by (auto simp: final_layer_unfold split: if_splits)
    from run lin nz om obtain w where
      w: "tensor_uniform (- weight_bound False hdim om) (weight_bound False hdim om)
            (out_features lin) (in_features lin) g1 = Inr (w, g')"
      and fl: "fl = Lin (lin\<lparr>weight := w\<rparr>)"
      by (auto simp: final_layer_unfold split: sum.splits)
    note wf = tensor_uniform_Inr [OF w]
    from nz lf(1) have hdim: "0 < hdim" by simp
    from wf(1) weight_bound_nonneg_iff [OF hdim, of False om] om have "0 < om" by simp
    moreover have "list_all (list_all (\<lambda>w. - weight_bound False hdim om \<le> w \<and> w \<le> weight_bound False hdim om)) w"
      if "unit_draws g" using wf(5) [OF lf(5) [OF that]] .
    ultimately show ?thesis using True hdim lf wf(2) wf(3) by (simp add: fl)
  next
    case False
    with assms obtain L where L: "SineLayer_init hdim outd True False om g = Inr (L, g')"
      and fl: "fl = Sine L"
      by (auto simp: final_layer_def split: sum.splits)
    note f = SineLayer_init_Inr [OF L]
    from f False show ?thesis by (simp add: fl)
  qed
  from all show "0 < hdim" "0 \<le> outd" "0 < om" by simp_all
  from all show "ol \<Longrightarrow> unit_draws g \<Longrightarrow> \<exists>lin. fl = Lin lin \<and> length (weight lin) = nat outd
            \<and> list_all (\<lambda>row. length row = nat hdim) (weight lin)
            \<and> list_all (list_all (\<lambda>w. - weight_bound False hdim om \<le> w \<and> w \<le> weight_bound False hdim om))
                 (weight lin)" by simp
  from all show "\<not> ol \<Longrightarrow> \<exists>L. fl = Sine L \<and> \<not> is_first L \<and> omega L = om \<and> indim L = hdim
            \<and> length (weight (sl_linear L)) = nat outd" by simp
qed

lemma final_layer_ok:
  assumes "0 < hdim" and "0 \<le> outd" and "0 < om"
  shows "\<exists>fl g'. final_layer hdim outd ol om g = Inr (fl, g')"
proof (cases ol)
  case True
  from assms obtain lin g1 where lin: "nn_Linear hdim outd True g = Inr (lin, g1)"
    using nn_Linear_ok [of hdim outd True g] by auto
  have "- weight_bound False hdim om \<le> weight_bound False hdim om"
    using weight_bound_nonneg_iff [OF assms(1), of False om] assms(3) by simp
  from tensor_uniform_ok [OF this] obtain w g2 where
    "tensor_uniform (- weight_bound False hdim om) (weight_bound False hdim om)
          (out_features lin) (in_features lin) g1 = Inr (w, g2)" by blast
  with lin assms True show ?thesis by (auto simp: final_layer_unfold)
next
  case False
  from assms obtain L g1 where "SineLayer_init hdim outd True False om g = Inr (L, g1)"
    using SineLayer_init_ok [of hdim outd False om True g] by auto
  with False show ?thesis by (simp add: final_layer_def)
qed

lemma Siren_init_Inr:
  assumes "Siren_init ind outd nh hdim ol fo ho g = Inr (net, g')"
  shows "\<exists>l0 g1 hs g2 fl. SineLayer_init ind hdim True True fo g = Inr (l0, g1)
           \<and> hidden_layers (nat nh) hdim ho g1 = Inr (hs, g2)
           \<and> final_layer hdim outd ol ho g2 = Inr (fl, g')
           \<and> net = Sine l0 # hs @ [fl]"
  using assms by (auto simp: Siren_init_def split: sum.splits)

lemma Siren_init_ok:
  assumes "0 < ind" and "0 < hdim" and "0 \<le> outd" and "0 < ho"
  shows "\<exists>net g'. Siren_init ind outd nh hdim ol fo ho g = Inr (net, g') \<and> length net = nat nh + 2"
proof -
  from assms obtain l0 g1 where l0: "SineLayer_init ind hdim True True fo g = Inr (l0, g1)"
    using SineLayer_init_ok [of ind hdim True fo True g] by auto
  from hidden_layers_ok [OF assms(2) assms(4), of "nat nh" g1] obtain hs g2 where
    hs: "hidden_layers (nat nh) hdim ho g1 = Inr (hs, g2)" by blast
  from final_layer_ok [OF assms(2) assms(3) assms(4), of ol g2] obtain fl g3 where
    fl: "final_layer hdim outd ol ho g2 = Inr (fl, g3)" by blast
  from hidden_layers_Inr [OF hs] have "length hs = nat nh" by simp
  with l0 hs fl show ?thesis by (simp add: Siren_init_def)
qed

theorem SineLayer_forward_spec_witness:
  "SineLayer_forward demo_layer [[1, 1]] = Inr (spec_forward 30 [[1 / 2, - 1 / 2]] [0] [[1, 1]])
   \<and> spec_forward 30 [[1 / 2, - 1 / 2]] [0] [[1, 1]] = [[0]]"
proof -
  have "SineLayer_forward demo_layer [[1, 1]]
          = Inr (spec_forward (omega demo_layer) (weight (sl_linear demo_layer)) [0] [[1, 1]])"
    by (rule SineLayer_forward_spec) (simp_all add: demo_layer_def)
  moreover have "spec_forward 30 [[1 / 2, - 1 / 2]] [0] [[1, 1]] = [[0]]"
    by (simp add: spec_forward_def mat_mul_def mat_transpose_def upt_rec)
  ultimately show ?thesis by (simp add: demo_layer_def)
qed

theorem SineLayer_output_bounded_witness:
  "SineLayer_forward_f32 demo_layer [[Fin 1, Fin 1]] = Inr [[Fin 0]]
   \<and> list_all (list_all unit_or_nan) [[Fin 0]]
   \<and> (0::nat) < length [Sine demo_layer] \<and> [Sine demo_layer] ! 0 = Sine demo_layer
   \<and> Siren_forward_f32 (take (Suc 0) [Sine demo_layer]) [[Fin 1, Fin 1]] = Inr [[Fin 0]]"
proof -
  have run: "SineLayer_forward_f32 demo_layer [[Fin 1, Fin 1]] = Inr [[Fin 0]]"
    by (simp add: SineLayer_forward_f32_def Linear_forward_f32_def dot_f32_def demo_layer_def
        overflow_def)
  then have seq: "Siren_forward_f32 (take (Suc 0) [Sine demo_layer]) [[Fin 1, Fin 1]] = Inr [[Fin 0]]"
    by (simp add: Siren_forward_f32_def)
  from SineLayer_output_bounded [of demo_layer "[[Fin 1, Fin 1]]" "[[Fin 0]]" 0 "[Sine demo_layer]"
      "[[Fin 1, Fin 1]]" "[[Fin 0]]"] run seq
  show ?thesis by simp
qed

subsection \<open>C8: the layers of a Siren\<close>

text \<open>
  C8. A constructed Siren consists, in order, of one SineLayer with \<open>is_first\<close> true and
  \<open>first_omega\<close>, \<open>nr_hidden\<close> SineLayers with \<open>is_first\<close> false and \<open>hidden_omega\<close> (none
  when \<open>nr_hidden\<close> is not positive), and then a plain linear layer whose weights lie in
  \<open>[-sqrt(6/hiddendim)/hidden_omega, sqrt(6/hiddendim)/hidden_omega]\<close> when
  \<open>outermost_linear\<close> is true, or one more SineLayer with \<open>is_first\<close> false when it is
  false.
\<close>

theorem Siren_init_structure:
  assumes run: "Siren_init ind outd nh hdim ol fo ho g = Inr (net, g')" and u: "unit_draws g"
  shows "length net = nat nh + 2
       \<and> (\<exists>L. net ! 0 = Sine L \<and> is_first L \<and> omega L = fo)
       \<and> (\<forall>k. 1 \<le> k \<and> k \<le> nat nh \<longrightarrow> (\<exists>L. net ! k = Sine L \<and> \<not> is_first L \<and> omega L = ho))
       \<and> (ol \<longrightarrow> (\<exists>lin. net ! (nat nh + 1) = Lin lin
              \<and> list_all (list_all (\<lambda>w. - (sqrt (6 / real_of_int hdim) / ho) \<le> w
                                     \<and> w \<le> sqrt (6 / real_of_int hdim) / ho)) (weight lin)))
       \<and> (\<not> ol \<longrightarrow> (\<exists>L. net ! (nat nh + 1) = Sine L \<and> \<not> is_first L \<and> omega L = ho))"
proof -
  from Siren_init_Inr [OF run] obtain l0 g1 hs g2 fl where
    l0: "SineLayer_init ind hdim True True fo g = Inr (l0, g1)"
    and hs: "hidden_layers (nat nh) hdim ho g1 = Inr (hs, g2)"
    and fl: "final_layer hdim outd ol ho g2 = Inr (fl, g')"
    and net: "net = Sine l0 # hs @ [fl]" by blast
  note f0 = SineLayer_init_Inr [OF l0]
  note fh = hidden_layers_Inr [OF hs]
  note ff = final_layer_Inr [OF fl]
  from fh have len: "length hs = nat nh" by simp
  from f0(11) [OF u] fh have u2: "unit_draws g2" by simp
  have c1: "length net = nat nh + 2" by (simp add: net len)
  have c2: "\<exists>L. net ! 0 = Sine L \<and> is_first L \<and> omega L = fo"
    using f0 by (simp add: net)
  have c3: "\<forall>k. 1 \<le> k \<and> k \<le> nat nh \<longrightarrow> (\<exists>L. net ! k = Sine L \<and> \<not> is_first L \<and> omega L = ho)"
  proof (intro allI impI)
    fix k assume k: "1 \<le> k \<and> k \<le> nat nh"
    then obtain j where j: "k = Suc j" "j < nat nh" by (cases k) auto
    with fh obtain L where "hs ! j = Sine L" "\<not> is_first L" "omega L = ho" by blast
    with j len show "\<exists>L. net ! k = Sine L \<and> \<not> is_first L \<and> omega L = ho"
      by (simp add: net nth_append)
  qed
  have lastnth: "net ! (nat nh + 1) = fl" by (simp add: net nth_append len)
  have c4: "ol \<longrightarrow> (\<exists>lin. net ! (nat nh + 1) = Lin lin
              \<and> list_all (list_all (\<lambda>w. - (sqrt (6 / real_of_int hdim) / ho) \<le> w
                                     \<and> w \<le> sqrt (6 / real_of_int hdim) / ho)) (weight lin))"
  proof
    assume ol
    from ff(4) [OF this u2] obtain lin where "fl = Lin lin"
      "list_all (list_all (\<lambda>w. - weight_bound False hdim ho \<le> w \<and> w \<le> weight_bound False hdim ho))
                 (weight lin)" by blast
    then show "\<exists>lin. net ! (nat nh + 1) = Lin lin
              \<and> list_all (list_all (\<lambda>w. - (sqrt (6 / real_of_int hdim) / ho) \<le> w
                                     \<and> w \<le> sqrt (6 / real_of_int hdim) / ho)) (weight lin)"
      using lastnth by (simp add: weight_bound_def)
  qed
  have c5: "\<not> ol \<longrightarrow> (\<exists>L. net ! (nat nh + 1) = Sine L \<and> \<not> is_first L \<and> omega L = ho)"
  proof
    assume "\<not> ol"
    from ff(5) [OF this] lastnth
    show "\<exists>L. net ! (nat nh + 1) = Sine L \<and> \<not> is_first L \<and> omega L = ho" by auto
  qed
  from c1 c2 c3 c4 c5 show ?thesis by blast
qed

theorem Siren_init_structure_witness:
  "\<exists>net g'. Siren_init 2 1 3 256 True 30 30 (\<lambda>k. 1 / 2) = Inr (net, g')
     \<and> unit_draws (\<lambda>k. 1 / 2)
     \<and> length net = 5
     \<and> (\<exists>L. net ! 0 = Sine L \<and> is_first L \<and> omega L = 30)
     \<and> (\<exists>L. net ! 2 = Sine L \<and> \<not> is_first L \<and> omega L = 30)
     \<and> (\<exists>lin. net ! 4 = Lin lin)"
proof -
  have u: "unit_draws (\<lambda>k. 1 / 2)" by (simp add: unit_draws_def)
  obtain net g' where run: "Siren_init 2 1 3 256 True 30 30 (\<lambda>k. 1 / 2) = Inr (net, g')"
    using Siren_init_ok [of 2 256 1 30 3 True 30 "\<lambda>k. 1 / 2"] by auto
  from Siren_init_structure [OF run u]
  have s: "length net = nat 3 + 2"
    "\<exists>L. net ! 0 = Sine L \<and> is_first L \<and> omega L = 30"
    "\<forall>k. 1 \<le> k \<and> k \<le> nat 3 \<longrightarrow> (\<exists>L. net ! k = Sine L \<and> \<not> is_first L \<and> omega L = 30)"
    "\<exists>lin. net ! (nat 3 + 1) = Lin lin"
    by auto
  from s(3) have "\<exists>L. net ! 2 = Sine L \<and> \<not> is_first L \<and> omega L = 30" by simp
  with run u s(1) s(2) s(4) show ?thesis by (auto simp: numeral_eq_Suc)
qed

section \<open>Properties of the projection operators\<close>

lemma out_of_bounds_outside:
  assumes "0 < r" and "0 < c" and "outside p"
  shows "out_of_bounds (linspace (-1) 1 r) (linspace (-1) 1 c) p"
  using assms by (cases p) (auto simp: out_of_bounds_def outside_def hd_linspace last_linspace)

text \<open>
  The projection of an image does give the value \<open>0\<close> to every sample point outside
  \<open>[-1,1]\<times>[-1,1]\<close>: that is the fill value of its interpolator.
\<close>

lemma image_field_zero_outside:
  assumes "0 < fst (image_shape img)" and "0 < snd (image_shape img)" and "outside p"
  shows "image_field img p = 0"
proof -
  obtain r c where rc: "image_shape img = (r, c)" by (cases "image_shape img")
  with assms have "0 < r" "0 < c" by simp_all
  from out_of_bounds_outside [OF this assms(3)] show ?thesis
    by (simp add: image_field_def RegularGridInterpolator_def rc)
qed

lemma length_meshgrid_xy_flat: "length (meshgrid_xy_flat b s) = length s * length b"
  by (induction s) (simp_all add: meshgrid_xy_flat_def)

lemma reshape2_const:
  assumes "length xs = m * n" and "\<forall>k<length xs. xs ! k = v"
  shows "reshape2 m n xs = Inr (replicate m (replicate n v))"
proof -
  have idx: "i * n + j < m * n" if "i < m" "j < n" for i j
  proof -
    from that have "i * n + j < i * n + n" by simp
    also have "\<dots> = Suc i * n" by simp
    also have "\<dots> \<le> m * n" using that(1) by (intro mult_le_mono1) simp
    finally show ?thesis .
  qed
  have row: "map (\<lambda>j. xs ! (i * n + j)) [0..<n] = replicate n v" if "i < m" for i
  proof -
    have "map (\<lambda>j. xs ! (i * n + j)) [0..<n] = map (\<lambda>j. v) [0..<n]"
      using idx [OF that] assms by (intro map_cong) simp_all
    then show ?thesis by (simp add: map_replicate_const)
  qed
  have "map (\<lambda>i. map (\<lambda>j. xs ! (i * n + j)) [0..<n]) [0..<m] = map (\<lambda>i. replicate n v) [0..<m]"
    using row by (intro map_cong) simp_all
  then have "map (\<lambda>i. map (\<lambda>j. xs ! (i * n + j)) [0..<n]) [0..<m] = replicate m (replicate n v)"
    by (simp add: map_replicate_const)
  with assms(1) show ?thesis by (simp add: reshape2_def)
qed

lemma project_model_const:
  assumes B: "0 < nr_B" and S: "0 < nr_S" and enc: "\<forall>pts. length (posenc pts L) = length pts"
  shows "project_model (map (\<lambda>e. v)) posenc theta nr_B nr_S L = Inr (replicate (nat nr_B) v)"
proof -
  define pts where "pts = map (model_point theta)
      (meshgrid_xy_flat (linspace (-1) 1 (nat nr_B)) (linspace (-1) 1 (nat nr_S)))"
  define out where "out = map (\<lambda>e. v) (posenc pts L)"
  have len: "length out = nat nr_B * nat nr_S"
    using enc by (simp add: out_def pts_def length_meshgrid_xy_flat length_linspace mult.commute)
  have "\<forall>k<length out. out ! k = v" by (simp add: out_def)
  from reshape2_const [OF len this]
  have rs: "reshape2 (nat nr_B) (nat nr_S) out = Inr (replicate (nat nr_B) (replicate (nat nr_S) v))" .
  have "(1 / real_of_int nr_S) * sum_list (replicate (nat nr_S) v) = v"
    using S by (simp add: sum_list_replicate)
  then have "map (\<lambda>row. (1 / real_of_int nr_S) * sum_list row) (replicate (nat nr_B) (replicate (nat nr_S) v))
      = replicate (nat nr_B) v" by (simp add: map_replicate)
  with rs B S show ?thesis
    unfolding project_model_def Let_def pts_def [symmetric] out_def [symmetric] by simp
qed

subsection \<open>C4: samples outside the domain\<close>

text \<open>
  C4 has every sample point outside \<open>[-1,1]\<times>[-1,1]\<close> contribute \<open>0\<close> to its projection,
  for an image and for a network. The projection of an image does so; the projection of
  a network, which the fitting loop compares with it, applies no mask and no fill value:
  at the angle \<open>\<pi>/4\<close>, with two bins and two samples, all four sample points are outside
  the domain, and a network that is constantly \<open>1\<close> projects to \<open>1\<close> in both bins, where
  the claim gives \<open>0\<close>.
\<close>

theorem project_model_no_zero_fill:
  "project_model (map (\<lambda>e. 1)) (\<lambda>pts L. pts) (pi / 4) 2 2 6 = Inr [1, 1]
   \<and> list_all outside
       (map (model_point (pi / 4)) (meshgrid_xy_flat (linspace (-1) 1 2) (linspace (-1) 1 2)))"
proof
  show "project_model (map (\<lambda>e. 1)) (\<lambda>pts L. pts) (pi / 4) 2 2 6 = Inr [1, 1]"
    by (simp add: project_model_def Let_def reshape2_def linspace_def meshgrid_xy_flat_def upt_rec)
  have "1 < sqrt 2" by simp
  then show "list_all outside
       (map (model_point (pi / 4)) (meshgrid_xy_flat (linspace (-1) 1 2) (linspace (-1) 1 2)))"
    by (simp add: outside_def model_point_def meshgrid_xy_flat_def linspace_def upt_rec
        sin_45 cos_45)
qed

lemma linspace_rev:
  assumes "2 \<le> n"
  shows "rev (linspace (-1) 1 n) = map uminus (linspace (-1) 1 n)"
proof (intro nth_equalityI)
  show "length (rev (linspace (- 1) 1 n)) = length (map uminus (linspace (- 1) 1 n))" by simp
next
  fix i assume "i < length (rev (linspace (- 1) 1 n))"
  then have i: "i < n" by (simp add: length_linspace)
  define d where "d = real (n - 1)"
  from assms have d: "0 < d" by (simp add: d_def)
  from i have sub: "real (n - Suc i) = d - real i" by (simp add: d_def of_nat_diff)
  have "rev (linspace (- 1) 1 n) ! i = linspace (- 1) 1 n ! (n - Suc i)"
    using i by (simp add: rev_nth length_linspace)
  also have "\<dots> = - 1 + (d - real i) * (2 / d)"
    using i assms sub by (simp add: linspace_nth d_def)
  also have "\<dots> = - (- 1 + real i * (2 / d))"
    using d by (simp add: field_simps)
  also have "\<dots> = map uminus (linspace (- 1) 1 n) ! i"
    using i assms by (simp add: linspace_nth length_linspace d_def)
  finally show "rev (linspace (- 1) 1 n) ! i = map uminus (linspace (- 1) 1 n) ! i" .
qed

lemma image_point_pi: "image_point (theta + pi) b s = image_point theta (- b) (- s)"
  by (simp add: image_point_def)

lemma mean_np_rev: "mean_np (rev xs) = mean_np xs"
  by (simp add: mean_np_def sum_list_rev)

lemma mean_over_reversed:
  assumes "rev b = map uminus b"
  shows "mean_np (map (\<lambda>bi. h (- bi)) b) = mean_np (map h b)"
proof -
  have "map (\<lambda>bi. h (- bi)) b = map h (map uminus b)" by (simp add: comp_def)
  also have "\<dots> = rev (map h b)" using assms by (simp add: rev_map)
  finally show ?thesis by (simp add: mean_np_rev)
qed

lemma row_mirror:
  assumes b: "rev b = map uminus b" and s: "rev s = map uminus s"
  shows "map (\<lambda>sj. mean_np (map (\<lambda>bi. F (image_point (theta + pi) bi sj)) b)) s
       = rev (map (\<lambda>sj. mean_np (map (\<lambda>bi. F (image_point theta bi sj)) b)) s)"
proof -
  have "rev (map (\<lambda>sj. mean_np (map (\<lambda>bi. F (image_point theta bi sj)) b)) s)
      = map (\<lambda>sj. mean_np (map (\<lambda>bi. F (image_point theta bi sj)) b)) (map uminus s)"
    using s by (simp add: rev_map)
  also have "\<dots> = map (\<lambda>sj. mean_np (map (\<lambda>bi. F (image_point theta bi (- sj))) b)) s"
    by (simp add: comp_def)
  also have "\<dots> = map (\<lambda>sj. mean_np (map (\<lambda>bi. F (image_point theta (- bi) (- sj))) b)) s"
    using mean_over_reversed [OF b, of "\<lambda>bi. F (image_point theta bi (- sj))" for sj] by simp
  finally show ?thesis by (simp add: image_point_pi)
qed

subsection \<open>Opposite angles in exact arithmetic\<close>

text \<open>
  In exact arithmetic, with at least two bins and two samples, the rows of the sinogram
  of an image at the angles \<open>\<theta> + \<pi>\<close> are the rows at the angles \<open>\<theta>\<close> with their entries in
  reversed order. The lemma is about the real number \<open>\<pi>\<close> and about unrounded sums and
  products. The program adds the float nearest to \<open>\<pi>\<close>, whose sine is not \<open>0\<close>, and rounds
  every operation; what it returns at two such angles is a matter of floating-point
  arithmetic, on which this lemma is silent.
\<close>

lemma project_image_half_turn_exact:
  assumes "2 \<le> nr_B" and "2 \<le> nr_S_default nr_S nr_B"
  shows "project_image img (map (\<lambda>theta. theta + pi) thetas) nr_B nr_S
       = map_sum id (map rev) (project_image img thetas nr_B nr_S)"
proof -
  have b: "rev (linspace (-1) 1 (nat nr_B)) = map uminus (linspace (-1) 1 (nat nr_B))"
    using assms(1) by (intro linspace_rev) simp
  have s: "rev (linspace (-1) 1 (nat (nr_S_default nr_S nr_B)))
         = map uminus (linspace (-1) 1 (nat (nr_S_default nr_S nr_B)))"
    using assms(2) by (intro linspace_rev) simp
  show ?thesis
    using assms row_mirror [OF b s, of "image_field img"]
    by (simp add: project_image_def np_linspace_def comp_def)
qed

subsection \<open>The shape of the sinogram of an image\<close>

text \<open>
  Whatever the counts, a row of the sinogram that \<open>project_image\<close> returns has as many
  entries as there are samples \<open>s\<close>, not as there are bins \<open>b\<close>.
\<close>

lemma project_image_shape:
  assumes "project_image img thetas nr_B nr_S = Inr sino"
  shows "length sino = length thetas"
    and "list_all (\<lambda>row. length row = nat (nr_S_default nr_S nr_B)) sino"
  using assms
  by (auto simp: project_image_def np_linspace_def length_linspace list_all_iff split: if_splits)

subsection \<open>C1: the sinogram of an image\<close>

text \<open>
  C1 has the sinogram \<open>nr_bins\<close> columns wide, the entry of a bin being the mean of the
  \<open>nr_samples\<close> values along the ray of that bin. The code averages over the bin axis
  instead: for the image with rows \<open>[1, 2]\<close> and \<open>[3, 4]\<close>, the angle \<open>0\<close>, two bins and
  three samples it returns the three values \<open>3/2, 5/2, 7/2\<close>, each the mean of two
  values, where the contract gives the two values \<open>2, 3\<close>; with two bins and the default
  number of samples it returns \<open>3/2, 7/2\<close> where the contract gives \<open>2, 3\<close>.
\<close>

theorem project_image_averages_over_bins:
  "project_image [[1, 2], [3, 4]] [0] 2 (Some 3) = Inr [[Some (3 / 2), Some (5 / 2), Some (7 / 2)]]
   \<and> spec_project (image_field [[1, 2], [3, 4]]) [0] 2 3 = [[Some 2, Some 3]]
   \<and> project_image [[1, 2], [3, 4]] [0] 2 None = Inr [[Some (3 / 2), Some (7 / 2)]]
   \<and> spec_project (image_field [[1, 2], [3, 4]]) [0] 2 2 = [[Some 2, Some 3]]"
  by (simp add: project_image_def spec_project_def np_linspace_def nr_S_default_def linspace_def
      image_shape_def image_field_def RegularGridInterpolator_def out_of_bounds_def
      evaluate_linear_def axis_weights_def image_point_def mean_np_def Let_def upt_rec)

subsection \<open>C2: the rotation of the two projection operators\<close>

text \<open>
  The network projector rotates the grid by the opposite angle of the image projector.
\<close>

lemma model_point_opposite_angle: "model_point theta (b, s) = image_point (- theta) b s"
  by (simp add: model_point_def image_point_def algebra_simps)

text \<open>
  C2 has both projectors evaluate their field at
  \<open>(s * cos \<theta> - b * sin \<theta>, s * sin \<theta> + b * cos \<theta>)\<close>. At \<open>\<theta> = \<pi>/2\<close>, \<open>b = 1\<close>, \<open>s = 0\<close> that
  point is \<open>(-1, 0)\<close>, which is where the image projector samples; the network projector
  passes \<open>(1, 0)\<close> to the network. For the field of the image that is \<open>1\<close> at the corner
  \<open>(-1, -1)\<close>, with two bins and two samples at \<open>\<pi>/2\<close>, the image projector returns
  \<open>1/2, 0\<close> and the network projector, run on the same field, \<open>0, 1/2\<close>.
\<close>

theorem project_model_rotation_mismatch:
  "model_point (pi / 2) (1, 0) = (1, 0) \<and> image_point (pi / 2) 1 0 = (- 1, 0)
   \<and> project_image [[1, 0], [0, 0]] [pi / 2] 2 None = Inr [[Some (1 / 2), Some 0]]
   \<and> project_model (map (image_field [[1, 0], [0, 0]])) (\<lambda>pts L. pts) (pi / 2) 2 2 6 = Inr [0, 1 / 2]"
  by (simp add: project_image_def project_model_def model_point_def meshgrid_xy_flat_def reshape2_def
      np_linspace_def nr_S_default_def linspace_def
      image_shape_def image_field_def RegularGridInterpolator_def out_of_bounds_def
      evaluate_linear_def axis_weights_def image_point_def mean_np_def Let_def upt_rec)

lemma project_image_negative_bins: "nr_B < 0 \<Longrightarrow> project_image img thetas nr_B nr_S = Inl ValueError"
  by (simp add: project_image_def np_linspace_def)

subsection \<open>C9: what the construction rejects\<close>

text \<open>
  C9, as stated, has a network or a projector with a layer count, a bin count or an omega
  that is not positive rejected. No parameter is validated: with \<open>nr_hidden = 0\<close> or
  \<open>nr_hidden = -3\<close>, and with \<open>first_omega = 0\<close>, the construction succeeds and gives the
  first layer followed by the output layer; and the projection of an image with no bins
  returns a sinogram with empty rows.
\<close>

theorem Siren_init_accepts_zero_layers:
  "(\<exists>net g'. Siren_init 2 1 0 256 True 30 30 (\<lambda>k. 1 / 2) = Inr (net, g') \<and> length net = 2)
   \<and> (\<exists>net g'. Siren_init 2 1 (- 3) 256 True 0 30 (\<lambda>k. 1 / 2) = Inr (net, g') \<and> length net = 2)
   \<and> project_image [[1, 0], [0, 0]] [0] 0 None = Inr [[]]"
proof -
  have "project_image [[1, 0], [0, 0]] [0] 0 None = Inr [[]]"
    by (simp add: project_image_def np_linspace_def nr_S_default_def linspace_def image_shape_def)
  then show ?thesis
    using Siren_init_ok [of 2 256 1 30 0 True 30 "\<lambda>k. 1 / 2"]
      Siren_init_ok [of 2 256 1 30 "- 3" True 0 "\<lambda>k. 1 / 2"]
    by (simp add: numeral_2_eq_2)
qed

text \<open>
  C9 (amended). Constructing a network with a hidden width or a hidden-layer omega that
  is not positive fails with an error at construction time, before any forward pass,
  and projecting an image with a negative bin count fails at once. The layer count
  \<open>nr_hidden\<close>, the omega of the first layer and a bin count of zero are not checked.
\<close>

theorem Siren_init_rejects:
  "(hdim \<le> 0 \<or> ho \<le> 0 \<longrightarrow> (\<exists>e. Siren_init ind outd nh hdim ol fo ho g = Inl e))
   \<and> (nr_B < 0 \<longrightarrow> (\<exists>e. project_image img thetas nr_B nr_S = Inl e))"
proof (intro conjI impI)
  assume bad: "hdim \<le> 0 \<or> ho \<le> 0"
  show "\<exists>e. Siren_init ind outd nh hdim ol fo ho g = Inl e"
  proof (cases "Siren_init ind outd nh hdim ol fo ho g")
    case (Inl e)
    then show ?thesis by blast
  next
    case (Inr r)
    obtain net g' where "r = (net, g')" by (cases r)
    with Inr have run: "Siren_init ind outd nh hdim ol fo ho g = Inr (net, g')" by simp
    from Siren_init_Inr [OF run] obtain fl g2 where
      fl: "final_layer hdim outd ol ho g2 = Inr (fl, g')" by blast
    from final_layer_Inr(1) [OF fl] final_layer_Inr(3) [OF fl] bad show ?thesis by simp
  qed
next
  assume "nr_B < 0"
  then show "\<exists>e. project_image img thetas nr_B nr_S = Inl e"
    by (simp add: project_image_def np_linspace_def)
qed

theorem Siren_init_rejects_witness:
  "(\<exists>e. Siren_init 2 1 3 0 True 30 30 (\<lambda>k. 1 / 2) = Inl e)
   \<and> (\<exists>e. Siren_init 2 1 3 256 True 30 0 (\<lambda>k. 1 / 2) = Inl e)
   \<and> (\<exists>e. project_image [[1, 0], [0, 0]] [0] (- 1) None = Inl e)"
  using Siren_init_rejects [of 0 30 2 1 3 True 30 "\<lambda>k. 1 / 2" "- 1" "[[1, 0], [0, 0]]" "[0]" None]
    Siren_init_rejects [of 256 0 2 1 3 True 30 "\<lambda>k. 1 / 2" "- 1" "[[1, 0], [0, 0]]" "[0]" None]
  by simp

end
